theory Spec2Isabelle
  imports Complex_Main "HOL-Library.Multiset" "HOL-Library.Monad_Syntax"
begin

section \<open>Python values the program relies on\<close>

text \<open>
  The exceptions that the embedded part of \<^verbatim>\<open>main.py\<close> can raise, named as Python
  names them. \<open>IndexError\<close> comes from list indexing, \<open>OverflowError\<close> from
  datetime arithmetic past year 9999, \<open>StopIteration\<close> from \<^verbatim>\<open>next\<close> on an exhausted
  generator, \<open>KeyError\<close> from a missing dictionary key, \<open>ValueError\<close> from
  \<^verbatim>\<open>datetime.fromisoformat\<close> and \<^verbatim>\<open>random.sample\<close>, \<open>TypeError\<close> from subscripting or
  iterating a value of the wrong type, \<open>UnicodeDecodeError\<close> from reading a file whose
  bytes are not text in the file's encoding, \<open>JSONDecodeError\<close> from \<^verbatim>\<open>json.load\<close> on a
  text that is not a JSON document, and \<open>OSError\<close> stands for every failure to open or
  read the file other than \<open>FileNotFoundError\<close>.

  \<open>Unmodelled\<close> is not a Python exception. It marks the two places where the typed
  embedding stops: a JSON value of another type than the field of the card it is loaded
  into (Python stores it unchecked), and a timestamp string in another shape than the
  two that \<^verbatim>\<open>isoformat\<close> writes (Python accepts some of them, depending on its
  version). No theorem below says anything about these inputs.
\<close>

datatype error =
    IndexError
  | OverflowError
  | StopIteration
  | KeyError
  | ValueError
  | TypeError
  | UnicodeDecodeError
  | JSONDecodeError
  | FileNotFoundError
  | OSError
  | Unmodelled

text \<open>
  Python list indexing \<^verbatim>\<open>xs[i]\<close>: a negative index counts from the end, an index outside
  \<open>-len .. len-1\<close> raises \<open>IndexError\<close>.
\<close>

definition py_index :: "'a list \<Rightarrow> int \<Rightarrow> error + 'a" where
  "py_index xs i =
     (if 0 \<le> i \<and> i < int (length xs) then Inr (xs ! nat i)
      else if i < 0 \<and> - int (length xs) \<le> i then Inr (xs ! nat (int (length xs) + i))
      else Inl IndexError)"

subsection \<open>Naive datetimes\<close>

text \<open>
  A \<^verbatim>\<open>datetime\<close> without time zone, as the object stores it: seven integer fields. The
  program only creates naive datetimes (\<^verbatim>\<open>datetime.now()\<close> and sums of those with a
  \<^verbatim>\<open>timedelta\<close>).
\<close>

record datetime =
  year :: int
  month :: int
  day :: int
  hour :: int
  minute :: int
  second :: int
  microsecond :: int

record timedelta =
  days :: int
  seconds :: int
  microseconds :: int

definition MAXORDINAL :: int where
  "MAXORDINAL = 3652059"

definition is_leap :: "int \<Rightarrow> bool" where
  "is_leap y = (y mod 4 = 0 \<and> (y mod 100 \<noteq> 0 \<or> y mod 400 = 0))"

definition days_before_year :: "int \<Rightarrow> int" where
  "days_before_year y = (y - 1) * 365 + (y - 1) div 4 - (y - 1) div 100 + (y - 1) div 400"

definition DAYS_IN_MONTH :: "int list" where
  "DAYS_IN_MONTH = [-1, 31, 28, 31, 30, 31, 30, 31, 31, 30, 31, 30, 31]"

definition DAYS_BEFORE_MONTH :: "int list" where
  "DAYS_BEFORE_MONTH = [-1, 0, 31, 59, 90, 120, 151, 181, 212, 243, 273, 304, 334]"

definition days_in_month :: "int \<Rightarrow> int \<Rightarrow> int" where
  "days_in_month y m = (if m = 2 \<and> is_leap y then 29 else DAYS_IN_MONTH ! nat m)"

definition days_before_month :: "int \<Rightarrow> int \<Rightarrow> int" where
  "days_before_month y m = DAYS_BEFORE_MONTH ! nat m + (if 2 < m \<and> is_leap y then 1 else 0)"

definition ymd2ord :: "int \<Rightarrow> int \<Rightarrow> int \<Rightarrow> int" where
  "ymd2ord y m d = days_before_year y + days_before_month y m + d"

text \<open>
  The inverse direction, as the standard library computes it: 400-year, 100-year and
  4-year cycles, then the month by an estimate that is corrected downwards.
\<close>

definition ord2ymd :: "int \<Rightarrow> int \<times> int \<times> int" where
  "ord2ymd n0 =
     (let n = n0 - 1;
          n400 = n div 146097; n = n mod 146097;
          n100 = n div 36524; n = n mod 36524;
          n4 = n div 1461; n = n mod 1461;
          n1 = n div 365; n = n mod 365;
          y = n400 * 400 + 1 + n100 * 100 + n4 * 4 + n1
      in if n1 = 4 \<or> n100 = 4 then (y - 1, 12, 31)
         else
           let leapyear = (n1 = 3 \<and> (n4 \<noteq> 24 \<or> n100 = 3));
               m = (n + 50) div 32;
               preceding = DAYS_BEFORE_MONTH ! nat m + (if 2 < m \<and> leapyear then 1 else 0)
           in if n < preceding
              then let m' = m - 1;
                       preceding' = preceding
                         - (DAYS_IN_MONTH ! nat m' + (if m' = 2 \<and> leapyear then 1 else 0))
                   in (y, m', n - preceding' + 1)
              else (y, m, n - preceding + 1))"

text \<open>
  The fields of a datetime object are always in range: the constructor raises otherwise.
\<close>

definition valid_datetime :: "datetime \<Rightarrow> bool" where
  "valid_datetime t =
     (1 \<le> year t \<and> year t \<le> 9999 \<and> 1 \<le> month t \<and> month t \<le> 12 \<and>
      1 \<le> day t \<and> day t \<le> days_in_month (year t) (month t) \<and>
      0 \<le> hour t \<and> hour t \<le> 23 \<and> 0 \<le> minute t \<and> minute t \<le> 59 \<and>
      0 \<le> second t \<and> second t \<le> 59 \<and> 0 \<le> microsecond t \<and> microsecond t \<le> 999999)"

definition toordinal :: "datetime \<Rightarrow> int" where
  "toordinal t = ymd2ord (year t) (month t) (day t)"

text \<open>\<^verbatim>\<open>timedelta(days=d)\<close>.\<close>

definition timedelta_days :: "int \<Rightarrow> timedelta" where
  "timedelta_days d = \<lparr>days = d, seconds = 0, microseconds = 0\<rparr>"

text \<open>
  \<^verbatim>\<open>datetime + timedelta\<close>: the datetime becomes a duration since day 0, the sum is
  normalised to days, seconds and microseconds, and a day number outside
  \<open>1 .. MAXORDINAL\<close> raises \<open>OverflowError\<close>.
\<close>

definition datetime_add :: "datetime \<Rightarrow> timedelta \<Rightarrow> error + datetime" where
  "datetime_add t d =
     (let us = microsecond t + microseconds d;
          s = hour t * 3600 + minute t * 60 + second t + seconds d + us div 1000000;
          dd = toordinal t + days d + s div 86400;
          s' = s mod 86400
      in if 0 < dd \<and> dd \<le> MAXORDINAL
         then (case ord2ymd dd of (y, m, d') \<Rightarrow>
                 Inr \<lparr>year = y, month = m, day = d',
                      hour = s' div 3600, minute = (s' mod 3600) div 60,
                      second = (s' mod 3600) mod 60, microsecond = us mod 1000000\<rparr>)
         else Inl OverflowError)"

text \<open>
  Comparison of two naive datetimes is the lexicographic order on the seven fields.
\<close>

definition datetime_key :: "datetime \<Rightarrow> int list" where
  "datetime_key t = [year t, month t, day t, hour t, minute t, second t, microsecond t]"

fun lex_le :: "int list \<Rightarrow> int list \<Rightarrow> bool" where
  "lex_le [] ys = True"
| "lex_le (x # xs) [] = False"
| "lex_le (x # xs) (y # ys) = (x < y \<or> (x = y \<and> lex_le xs ys))"

definition datetime_le :: "datetime \<Rightarrow> datetime \<Rightarrow> bool" where
  "datetime_le a b = lex_le (datetime_key a) (datetime_key b)"

section \<open>The card and the scheduler\<close>

definition INTERVALS :: "int list" where
  "INTERVALS = [1, 3, 7, 14, 30, 90]"

text \<open>
  A \<^verbatim>\<open>Flashcard\<close> object. The constructor takes the word, the translation, the level
  and the next review time; \<^verbatim>\<open>next_review or datetime.now()\<close> takes the clock reading
  when no time is given (a datetime object is never falsy).
\<close>

record flashcard =
  word :: string
  translation :: string
  level :: int
  next_review :: datetime
  reviews :: int
  correct :: int

definition Flashcard :: "string \<Rightarrow> string \<Rightarrow> int \<Rightarrow> datetime option \<Rightarrow> datetime \<Rightarrow> flashcard" where
  "Flashcard w t l nr now =
     \<lparr>word = w, translation = t, level = l,
      next_review = (case nr of None \<Rightarrow> now | Some x \<Rightarrow> x),
      reviews = 0, correct = 0\<rparr>"

text \<open>
  \<^verbatim>\<open>update_card_status(card, correct)\<close> mutates the card in place and may raise on its
  last line, after the counters and the level have been written. The model returns the
  card as the call leaves it, together with the exception if one was raised. The clock
  reading of \<^verbatim>\<open>datetime.now()\<close> is the argument \<open>now\<close>.
\<close>

definition update_card_status :: "flashcard \<Rightarrow> bool \<Rightarrow> datetime \<Rightarrow> flashcard \<times> error option" where
  "update_card_status c ok now =
     (let c1 = c\<lparr>reviews := reviews c + 1\<rparr>;
          c2 = (if ok
                then c1\<lparr>correct := correct c1 + 1,
                        level := min (int (length INTERVALS) - 1) (level c1 + 1)\<rparr>
                else c1\<lparr>level := max 0 (level c1 - 1)\<rparr>)
      in case py_index INTERVALS (level c2) of
           Inl e \<Rightarrow> (c2, Some e)
         | Inr i \<Rightarrow>
            (case datetime_add now (timedelta_days i) of
               Inl e \<Rightarrow> (c2, Some e)
             | Inr t \<Rightarrow> (c2\<lparr>next_review := t\<rparr>, None)))"

text \<open>
  A sequence of calls on one card, each with its outcome and its clock reading. The
  card is carried on whatever a call raised, as the object is.
\<close>

fun update_all :: "flashcard \<Rightarrow> (bool \<times> datetime) list \<Rightarrow> flashcard" where
  "update_all c [] = c"
| "update_all c ((ok, now) # rest) = update_all (fst (update_card_status c ok now)) rest"

text \<open>
  The selection of the due cards in \<^verbatim>\<open>main\<close>:
  \<^verbatim>\<open>[card for card in cards if card.next_review <= datetime.now()]\<close>. The clock is read
  once for every card; \<open>clock k\<close> is the reading taken for the card at position \<open>k\<close>.
\<close>

fun due_cards_from :: "(nat \<Rightarrow> datetime) \<Rightarrow> nat \<Rightarrow> flashcard list \<Rightarrow> flashcard list" where
  "due_cards_from clock k [] = []"
| "due_cards_from clock k (c # cards) =
     (if datetime_le (next_review c) (clock k)
      then c # due_cards_from clock (Suc k) cards
      else due_cards_from clock (Suc k) cards)"

definition due_cards :: "(nat \<Rightarrow> datetime) \<Rightarrow> flashcard list \<Rightarrow> flashcard list" where
  "due_cards clock cards = due_cards_from clock 0 cards"

text \<open>The invariant of the data model: the level indexes the table, and no more reviews are
  counted correct than were made.\<close>

definition card_inv :: "flashcard \<Rightarrow> bool" where
  "card_inv c = (0 \<le> level c \<and> level c \<le> int (length INTERVALS) - 1 \<and> correct c \<le> reviews c)"

section \<open>The quiz generator\<close>

text \<open>
  The random source is explicit: a list of natural numbers, read from the front, zero once
  it is used up. \<^verbatim>\<open>random.sample(population, k)\<close> chooses \<open>k\<close> positions of the population
  without replacement and returns their values in the order chosen; it raises
  \<open>ValueError\<close> when the population has fewer than \<open>k\<close> elements. Here each draw takes
  the element at a random position of what is left of the population.
  \<^verbatim>\<open>random.shuffle\<close> returns the elements in a random order: a sample of all of them.
\<close>

fun next_random :: "nat list \<Rightarrow> nat" where
  "next_random [] = 0"
| "next_random (r # rs) = r"

fun sample_draw :: "nat list \<Rightarrow> 'a list \<Rightarrow> nat \<Rightarrow> 'a list" where
  "sample_draw rs pool 0 = []"
| "sample_draw rs pool (Suc k) =
     (if pool = [] then []
      else let j = next_random rs mod length pool
           in pool ! j # sample_draw (tl rs) (take j pool @ drop (Suc j) pool) k)"

definition random_sample :: "nat list \<Rightarrow> 'a list \<Rightarrow> nat \<Rightarrow> error + 'a list" where
  "random_sample rs population k =
     (if length population < k then Inl ValueError else Inr (sample_draw rs population k))"

definition random_shuffle :: "nat list \<Rightarrow> 'a list \<Rightarrow> 'a list" where
  "random_shuffle rs xs = sample_draw rs xs (length xs)"

text \<open>
  \<^verbatim>\<open>create_quiz(cards, current_word)\<close>. \<^verbatim>\<open>next(...)\<close> returns the first card with the word
  and raises \<open>StopIteration\<close> when the generator is exhausted. The shuffle reads the random
  source where the sample stopped.
\<close>

definition create_quiz ::
  "nat list \<Rightarrow> flashcard list \<Rightarrow> string \<Rightarrow> error + (string list \<times> string)" where
  "create_quiz rs cards current_word =
     (case find (\<lambda>c. word c = current_word) cards of
        None \<Rightarrow> Inl StopIteration
      | Some correct_card \<Rightarrow>
          let options = [translation correct_card];
              available_cards = filter (\<lambda>c. word c \<noteq> current_word) cards;
              k = min 3 (length available_cards)
          in case random_sample rs (map translation available_cards) k of
               Inl e \<Rightarrow> Inl e
             | Inr distractors \<Rightarrow>
                 Inr (random_shuffle (drop k rs) (options @ distractors),
                      translation correct_card))"

section \<open>The card store\<close>

subsection \<open>Timestamps as text\<close>

text \<open>
  \<^verbatim>\<open>datetime.isoformat()\<close> writes \<^verbatim>\<open>YYYY-MM-DDTHH:MM:SS\<close>, followed by \<^verbatim>\<open>.ffffff\<close> when
  the microsecond is not zero. Each field is printed with \<^verbatim>\<open>%0wd\<close>; \<open>zero_padded w n\<close>
  is that text for a field below \<open>10 ^ w\<close>, which every field of a datetime object is.
\<close>

definition digit_char :: "nat \<Rightarrow> char" where
  "digit_char d = char_of (48 + d)"

definition is_digit :: "char \<Rightarrow> bool" where
  "is_digit c = (48 \<le> (of_char c :: nat) \<and> (of_char c :: nat) \<le> 57)"

definition digit_value :: "char \<Rightarrow> nat" where
  "digit_value c = of_char c - 48"

fun zero_padded :: "nat \<Rightarrow> nat \<Rightarrow> string" where
  "zero_padded 0 n = []"
| "zero_padded (Suc w) n = zero_padded w (n div 10) @ [digit_char (n mod 10)]"

definition isoformat :: "datetime \<Rightarrow> string" where
  "isoformat t =
     zero_padded 4 (nat (year t)) @ ''-'' @ zero_padded 2 (nat (month t)) @ ''-'' @
     zero_padded 2 (nat (day t)) @ ''T'' @ zero_padded 2 (nat (hour t)) @ '':'' @
     zero_padded 2 (nat (minute t)) @ '':'' @ zero_padded 2 (nat (second t)) @
     (if microsecond t \<noteq> 0 then ''.'' @ zero_padded 6 (nat (microsecond t)) else [])"

text \<open>
  \<^verbatim>\<open>datetime.fromisoformat\<close>, on the two shapes above: fixed-width decimal fields between
  the separators, then the range check of the datetime constructor, which raises
  \<open>ValueError\<close>. A string of another shape is outside the embedding (\<open>Unmodelled\<close>).
\<close>

fun parse_digits :: "nat \<Rightarrow> nat \<Rightarrow> string \<Rightarrow> (nat \<times> string) option" where
  "parse_digits 0 acc s = Some (acc, s)"
| "parse_digits (Suc w) acc [] = None"
| "parse_digits (Suc w) acc (c # s) =
     (if is_digit c then parse_digits w (acc * 10 + digit_value c) s else None)"

fun expect :: "char \<Rightarrow> string \<Rightarrow> string option" where
  "expect c [] = None"
| "expect c (x # s) = (if x = c then Some s else None)"

definition parse_isoformat :: "string \<Rightarrow> datetime option" where
  "parse_isoformat s0 = do {
     (y, s) \<leftarrow> parse_digits 4 0 s0;
     s \<leftarrow> expect CHR ''-'' s;
     (mo, s) \<leftarrow> parse_digits 2 0 s;
     s \<leftarrow> expect CHR ''-'' s;
     (d, s) \<leftarrow> parse_digits 2 0 s;
     s \<leftarrow> expect CHR ''T'' s;
     (h, s) \<leftarrow> parse_digits 2 0 s;
     s \<leftarrow> expect CHR '':'' s;
     (mi, s) \<leftarrow> parse_digits 2 0 s;
     s \<leftarrow> expect CHR '':'' s;
     (sec, s) \<leftarrow> parse_digits 2 0 s;
     (us, s) \<leftarrow> (if s = [] then Some (0, s)
                  else do { s \<leftarrow> expect CHR ''.'' s; parse_digits 6 0 s });
     if s = [] then Some \<lparr>year = int y, month = int mo, day = int d, hour = int h,
                           minute = int mi, second = int sec, microsecond = int us\<rparr>
     else None
   }"

definition fromisoformat :: "string \<Rightarrow> error + datetime" where
  "fromisoformat s =
     (case parse_isoformat s of
        None \<Rightarrow> Inl Unmodelled
      | Some t \<Rightarrow> if valid_datetime t then Inr t else Inl ValueError)"

subsection \<open>The snapshot\<close>

text \<open>
  What \<^verbatim>\<open>json.load\<close> returns and \<^verbatim>\<open>json.dump\<close> takes: the file is modelled by the JSON
  value it holds, not by its text. An object is the list of its members in file order;
  a later member with the same key overrides an earlier one, as in the dictionary Python
  builds. Numbers with a fraction are not needed: the program never writes one.
\<close>

datatype json =
    JNull
  | JBool bool
  | JInt int
  | JStr string
  | JArr "json list"
  | JObj "(string \<times> json) list"

definition dict_get :: "(string \<times> json) list \<Rightarrow> string \<Rightarrow> json option" where
  "dict_get kvs k = map_of (rev kvs) k"

definition dict_keys :: "(string \<times> json) list \<Rightarrow> string list" where
  "dict_keys kvs = rev (remdups (rev (map fst kvs)))"

text \<open>
  \<^verbatim>\<open>data[k]\<close> for a string \<open>k\<close>: \<open>KeyError\<close> on a dictionary without the key,
  \<open>TypeError\<close> on anything that is not a dictionary.
\<close>

definition subscript :: "json \<Rightarrow> string \<Rightarrow> error + json" where
  "subscript data k =
     (case data of
        JObj kvs \<Rightarrow> (case dict_get kvs k of None \<Rightarrow> Inl KeyError | Some v \<Rightarrow> Inr v)
      | _ \<Rightarrow> Inl TypeError)"

definition to_dict :: "flashcard \<Rightarrow> json" where
  "to_dict c = JObj
     [(''word'', JStr (word c)),
      (''translation'', JStr (translation c)),
      (''level'', JInt (level c)),
      (''next_review'', JStr (isoformat (next_review c))),
      (''reviews'', JInt (reviews c)),
      (''correct'', JInt (correct c))]"

text \<open>\<^verbatim>\<open>data.get(k, 0)\<close>, for a counter of the card.\<close>

definition get_counter :: "(string \<times> json) list \<Rightarrow> string \<Rightarrow> error + int" where
  "get_counter kvs k =
     (case dict_get kvs k of
        None \<Rightarrow> Inr 0
      | Some (JInt n) \<Rightarrow> Inr n
      | Some _ \<Rightarrow> Inl Unmodelled)"

text \<open>
  \<^verbatim>\<open>Flashcard.from_dict\<close>. The subscripts are evaluated in the order of the source, then
  the timestamp is parsed (\<^verbatim>\<open>fromisoformat\<close> raises \<open>TypeError\<close> on a value that is not a
  string), then the counters are read with their default. The constructor's own clock
  reading is overwritten by the parsed timestamp on the next line of the source, so the
  clock is no argument here.
\<close>

definition from_dict :: "json \<Rightarrow> error + flashcard" where
  "from_dict data =
     (case subscript data ''word'' of Inl e \<Rightarrow> Inl e | Inr w \<Rightarrow>
      case subscript data ''translation'' of Inl e \<Rightarrow> Inl e | Inr t \<Rightarrow>
      case subscript data ''level'' of Inl e \<Rightarrow> Inl e | Inr l \<Rightarrow>
      case subscript data ''next_review'' of Inl e \<Rightarrow> Inl e | Inr nr \<Rightarrow>
      case (case nr of JStr s \<Rightarrow> fromisoformat s | _ \<Rightarrow> Inl TypeError) of
        Inl e \<Rightarrow> Inl e | Inr d \<Rightarrow>
      case data of
        JObj kvs \<Rightarrow>
          (case (w, t, l, get_counter kvs ''reviews'', get_counter kvs ''correct'') of
             (JStr w', JStr t', JInt l', Inr r, Inr k) \<Rightarrow>
               Inr ((Flashcard w' t' l' None d)\<lparr>next_review := d, reviews := r, correct := k\<rparr>)
           | _ \<Rightarrow> Inl Unmodelled)
      | _ \<Rightarrow> Inl TypeError)"

text \<open>
  The file \<^verbatim>\<open>flashcards.json\<close>, by what \<^verbatim>\<open>open(..., 'r')\<close> and \<^verbatim>\<open>json.load\<close> do with it:
  \<^item> \<open>Missing\<close>: there is no file, \<^verbatim>\<open>open\<close> raises \<open>FileNotFoundError\<close>;
  \<^item> \<open>Unreadable\<close>: the file cannot be opened or read, which raises another \<open>OSError\<close>;
  \<^item> \<open>Undecodable\<close>: the bytes of the file are not text in the encoding \<^verbatim>\<open>open\<close> uses,
    and the read that \<^verbatim>\<open>json.load\<close> starts with raises \<open>UnicodeDecodeError\<close>;
  \<^item> \<open>Garbage\<close>: the file is text, but the text is not a JSON document, and
    \<^verbatim>\<open>json.load\<close> raises \<open>JSONDecodeError\<close>;
  \<^item> \<open>Holds j\<close>: the text is a JSON document and \<^verbatim>\<open>json.load\<close> returns the value \<open>j\<close>.

  A document that \<^verbatim>\<open>json.load\<close> gives up on for its size alone (nesting beyond the
  recursion limit, an integer beyond the interpreter's digit limit) is none of these
  states. \<open>writable\<close> says whether \<^verbatim>\<open>open(..., 'w')\<close> succeeds.
\<close>

datatype snapshot = Missing | Unreadable | Undecodable | Garbage | Holds json

record storage =
  content :: snapshot
  writable :: bool

definition save_cards :: "flashcard list \<Rightarrow> storage \<Rightarrow> error + storage" where
  "save_cards cards st =
     (if writable st then Inr (st\<lparr>content := Holds (JArr (map to_dict cards))\<rparr>)
      else Inl OSError)"

text \<open>
  The comprehension of \<^verbatim>\<open>load_cards\<close> stops at the first record that raises. Iterating
  a dictionary yields its keys, iterating a string its characters, and other JSON values
  but arrays are not iterable. Only \<open>FileNotFoundError\<close> is caught.
\<close>

fun from_dict_all :: "json list \<Rightarrow> error + flashcard list" where
  "from_dict_all [] = Inr []"
| "from_dict_all (card_data # rest) =
     (case from_dict card_data of
        Inl e \<Rightarrow> Inl e
      | Inr c \<Rightarrow> (case from_dict_all rest of Inl e \<Rightarrow> Inl e | Inr cs \<Rightarrow> Inr (c # cs)))"

definition iterate :: "json \<Rightarrow> error + json list" where
  "iterate j =
     (case j of
        JArr items \<Rightarrow> Inr items
      | JObj kvs \<Rightarrow> Inr (map JStr (dict_keys kvs))
      | JStr s \<Rightarrow> Inr (map (\<lambda>ch. JStr [ch]) s)
      | _ \<Rightarrow> Inl TypeError)"

definition load_cards :: "storage \<Rightarrow> error + flashcard list" where
  "load_cards st =
     (case content st of
        Missing \<Rightarrow> Inr []
      | Unreadable \<Rightarrow> Inl OSError
      | Undecodable \<Rightarrow> Inl UnicodeDecodeError
      | Garbage \<Rightarrow> Inl JSONDecodeError
      | Holds j \<Rightarrow> (case iterate j of Inl e \<Rightarrow> Inl e | Inr items \<Rightarrow> from_dict_all items))"

text \<open>
  The snapshot format as the specification describes it: a list of records, each with a
  string \<open>word\<close>, a string \<open>translation\<close>, an integer \<open>level\<close>, a timestamp string
  \<open>next_review\<close> and integers \<open>reviews\<close> and \<open>correct\<close>. This predicate follows the
  specification's words, not the code.
\<close>

fun is_str :: "json option \<Rightarrow> bool" where
  "is_str (Some (JStr s)) = True"
| "is_str _ = False"

fun is_int :: "json option \<Rightarrow> bool" where
  "is_int (Some (JInt n)) = True"
| "is_int _ = False"

fun is_timestamp :: "json option \<Rightarrow> bool" where
  "is_timestamp (Some (JStr s)) = (case fromisoformat s of Inr d \<Rightarrow> True | Inl e \<Rightarrow> False)"
| "is_timestamp _ = False"

definition record_well_formed :: "json \<Rightarrow> bool" where
  "record_well_formed r =
     (case r of
        JObj kvs \<Rightarrow>
          is_str (dict_get kvs ''word'') \<and> is_str (dict_get kvs ''translation'') \<and>
          is_int (dict_get kvs ''level'') \<and> is_timestamp (dict_get kvs ''next_review'') \<and>
          is_int (dict_get kvs ''reviews'') \<and> is_int (dict_get kvs ''correct'')
      | _ \<Rightarrow> False)"

definition snapshot_well_formed :: "json \<Rightarrow> bool" where
  "snapshot_well_formed j = (case j of JArr items \<Rightarrow> list_all record_well_formed items | _ \<Rightarrow> False)"

text \<open>
  A record that lacks at most its counters: the four other members are as the format
  says, and each counter is an integer or absent. \<open>loaded_as r c\<close> says that the card
  \<open>c\<close> has the fields of such a record \<open>r\<close>, with 0 for an absent counter.
\<close>

fun counter_ok :: "json option \<Rightarrow> bool" where
  "counter_ok None = True"
| "counter_ok (Some (JInt n)) = True"
| "counter_ok (Some v) = False"

fun counter_value :: "json option \<Rightarrow> int" where
  "counter_value (Some (JInt n)) = n"
| "counter_value v = 0"

fun timestamp_is :: "json option \<Rightarrow> datetime \<Rightarrow> bool" where
  "timestamp_is (Some (JStr s)) d = (fromisoformat s = Inr d)"
| "timestamp_is v d = False"

definition record_loadable :: "json \<Rightarrow> bool" where
  "record_loadable r =
     (case r of
        JObj kvs \<Rightarrow>
          is_str (dict_get kvs ''word'') \<and> is_str (dict_get kvs ''translation'') \<and>
          is_int (dict_get kvs ''level'') \<and> is_timestamp (dict_get kvs ''next_review'') \<and>
          counter_ok (dict_get kvs ''reviews'') \<and> counter_ok (dict_get kvs ''correct'')
      | _ \<Rightarrow> False)"

definition loaded_as :: "json \<Rightarrow> flashcard \<Rightarrow> bool" where
  "loaded_as r c =
     (case r of
        JObj kvs \<Rightarrow>
          dict_get kvs ''word'' = Some (JStr (word c)) \<and>
          dict_get kvs ''translation'' = Some (JStr (translation c)) \<and>
          dict_get kvs ''level'' = Some (JInt (level c)) \<and>
          timestamp_is (dict_get kvs ''next_review'') (next_review c) \<and>
          reviews c = counter_value (dict_get kvs ''reviews'') \<and>
          correct c = counter_value (dict_get kvs ''correct'')
      | _ \<Rightarrow> False)"

section \<open>Adding a card and the statistics\<close>

text \<open>
  The handler of the \<^verbatim>\<open>Add Card\<close> button in \<^verbatim>\<open>main\<close>: the collection and the storage
  as the handler leaves them, and what it reports: an exception, the success message,
  or nothing.
\<close>

definition add_card ::
  "string \<Rightarrow> string \<Rightarrow> datetime \<Rightarrow> flashcard list \<Rightarrow> storage
     \<Rightarrow> (flashcard list \<times> storage) \<times> (error + string option)" where
  "add_card w t now cards st =
     (if w \<noteq> [] \<and> t \<noteq> []
      then let cards' = cards @ [Flashcard w t 0 None now]
           in case save_cards cards' st of
                Inl e \<Rightarrow> ((cards', st), Inl e)
              | Inr st' \<Rightarrow> ((cards', st'), Inr (Some ''Card added successfully!''))
      else ((cards, st), Inr None))"

text \<open>
  The statistics of the sidebar, computed when the collection is not empty. Python's
  true division and \<^verbatim>\<open>numpy.mean\<close> work on floating-point numbers; here they are exact,
  over the reals.
\<close>

definition np_mean :: "real list \<Rightarrow> real" where
  "np_mean xs = sum_list xs / real (length xs)"

definition avg_accuracy :: "flashcard list \<Rightarrow> real" where
  "avg_accuracy cards =
     np_mean (map (\<lambda>c. if 0 < reviews c then real_of_int (correct c) / real_of_int (reviews c)
                        else 0) cards) * 100"

definition study_statistics :: "flashcard list \<Rightarrow> (nat \<times> int \<times> real) option" where
  "study_statistics cards =
     (if cards \<noteq> []
      then Some (length cards, sum_list (map reviews cards), avg_accuracy cards)
      else None)"

text \<open>The accuracy of one card in the specification's words: zero for a card never reviewed.\<close>

definition card_accuracy :: "flashcard \<Rightarrow> real" where
  "card_accuracy c = (if reviews c = 0 then 0 else real_of_int (correct c) / real_of_int (reviews c))"

section \<open>Calendar facts\<close>

lemma days_before_year_nonneg:
  assumes "1 \<le> y"
  shows "0 \<le> days_before_year y"
proof -
  have a: "0 \<le> y - 1" using assms by simp
  have "(y - 1) div 100 \<le> (y - 1) div 4"
    by (rule zdiv_mono2 [OF a]) simp_all
  moreover have "0 \<le> (y - 1) div 400" using a by (simp add: pos_imp_zdiv_nonneg_iff)
  moreover have "0 \<le> (y - 1) * 365" using a by simp
  ultimately show ?thesis unfolding days_before_year_def by linarith
qed

lemma month_cases:
  assumes "1 \<le> m" "m \<le> (12::int)"
  shows "m = 1 \<or> m = 2 \<or> m = 3 \<or> m = 4 \<or> m = 5 \<or> m = 6 \<or>
         m = 7 \<or> m = 8 \<or> m = 9 \<or> m = 10 \<or> m = 11 \<or> m = 12"
  using assms by arith

lemma days_before_month_nonneg: "1 \<le> m \<Longrightarrow> m \<le> 12 \<Longrightarrow> 0 \<le> days_before_month y m"
  using month_cases [of m] by (auto simp: days_before_month_def DAYS_BEFORE_MONTH_def)

lemma toordinal_pos: "valid_datetime t \<Longrightarrow> 1 \<le> toordinal t"
  using days_before_year_nonneg [of "year t"] days_before_month_nonneg [of "month t" "year t"]
  by (simp add: valid_datetime_def toordinal_def ymd2ord_def)

text \<open>Adding whole days to a datetime succeeds as long as the day number stays in range.\<close>

lemma datetime_add_days_ok:
  assumes "valid_datetime t" "0 \<le> i" "toordinal t + i \<le> MAXORDINAL"
  shows "\<exists>r. datetime_add t (timedelta_days i) = Inr r"
proof -
  have s: "0 \<le> hour t * 3600 + minute t * 60 + second t"
          "hour t * 3600 + minute t * 60 + second t < 86400"
    using assms(1) by (simp_all add: valid_datetime_def)
  have u: "microsecond t div 1000000 = 0"
    using assms(1) by (simp add: valid_datetime_def)
  have d: "(hour t * 3600 + minute t * 60 + second t) div 86400 = 0"
    using s by simp
  have "0 < toordinal t + i" using toordinal_pos [OF assms(1)] assms(2) by simp
  then show ?thesis
    using assms(3) u d
    by (simp add: datetime_add_def timedelta_days_def Let_def split: prod.splits)
qed

section \<open>The scheduler's transition\<close>

lemma intervals_cases:
  assumes "0 \<le> l" "l \<le> (5::int)"
  shows "l = 0 \<or> l = 1 \<or> l = 2 \<or> l = 3 \<or> l = 4 \<or> l = 5"
  using assms by arith

lemma py_index_INTERVALS:
  assumes "0 \<le> l" "l \<le> 5"
  shows "py_index INTERVALS l = Inr (INTERVALS ! nat l)"
  using assms by (simp add: py_index_def INTERVALS_def)

lemma INTERVALS_bounds:
  assumes "0 \<le> l" "l \<le> 5"
  shows "0 \<le> INTERVALS ! nat l \<and> INTERVALS ! nat l \<le> 90"
  using intervals_cases [OF assms] by (auto simp: INTERVALS_def)

text \<open>
  The counters and the level are written before the last line of the function, so they
  are what the claim says whether or not that line raises.
\<close>

lemma update_fst_fields:
  "reviews (fst (update_card_status c ok now)) = reviews c + 1"
  "word (fst (update_card_status c ok now)) = word c"
  "translation (fst (update_card_status c ok now)) = translation c"
  "correct (fst (update_card_status c ok now)) = (if ok then correct c + 1 else correct c)"
  "level (fst (update_card_status c ok now)) =
     (if ok then min (int (length INTERVALS) - 1) (level c + 1) else max 0 (level c - 1))"
  by (simp_all add: update_card_status_def Let_def split: sum.split)

lemma update_in_range:
  assumes "0 \<le> level c" "level c \<le> int (length INTERVALS) - 1"
    "valid_datetime now" "toordinal now + 90 \<le> MAXORDINAL"
  shows "snd (update_card_status c ok now) = None \<and>
        datetime_add now (timedelta_days
            (INTERVALS ! nat (level (fst (update_card_status c ok now)))))
          = Inr (next_review (fst (update_card_status c ok now)))"
proof -
  define l' where "l' = level (fst (update_card_status c ok now))"
  have l'_eq: "l' = (if ok then min (int (length INTERVALS) - 1) (level c + 1)
                     else max 0 (level c - 1))"
    by (simp add: l'_def update_fst_fields)
  have r: "0 \<le> l'" "l' \<le> 5" using assms(1,2) by (auto simp: l'_eq INTERVALS_def)
  have i: "py_index INTERVALS l' = Inr (INTERVALS ! nat l')"
    by (rule py_index_INTERVALS [OF r])
  from INTERVALS_bounds [OF r] assms(4)
  have "0 \<le> INTERVALS ! nat l'" "toordinal now + INTERVALS ! nat l' \<le> MAXORDINAL"
    by simp_all
  from datetime_add_days_ok [OF assms(3) this]
  obtain t where t: "datetime_add now (timedelta_days (INTERVALS ! nat l')) = Inr t" ..
  have "snd (update_card_status c ok now) = None"
    "next_review (fst (update_card_status c ok now)) = t"
    using i t by (cases ok; simp add: update_card_status_def Let_def l'_eq)+
  with t show ?thesis by (simp add: l'_def)
qed

text \<open>
  Claim C1. For every card, outcome and clock reading, \<open>update_card_status\<close> leaves the
  card with \<open>reviews + 1\<close>; on a correct outcome with \<open>correct + 1\<close> and level
  \<open>min (level + 1) (N - 1)\<close>, on an incorrect one with \<open>correct\<close> unchanged and level
  \<open>max (level - 1) 0\<close>, where \<open>N\<close> is the length of the interval table. When the card's
  level is an index of the table (the range of the data model) and the clock reading is a
  datetime at least 90 days before the last representable day, the call returns normally
  and the new \<open>next_review\<close> is the clock reading plus the table's entry, in days, at the
  level after the transition.
\<close>

theorem update_card_status_spec:
  "case update_card_status c ok now of (c', e) \<Rightarrow>
     reviews c' = reviews c + 1 \<and>
     (ok \<longrightarrow> correct c' = correct c + 1 \<and>
             level c' = min (level c + 1) (int (length INTERVALS) - 1)) \<and>
     (\<not> ok \<longrightarrow> correct c' = correct c \<and> level c' = max (level c - 1) 0) \<and>
     word c' = word c \<and> translation c' = translation c \<and>
     (0 \<le> level c \<and> level c \<le> int (length INTERVALS) - 1 \<and>
      valid_datetime now \<and> toordinal now + 90 \<le> MAXORDINAL \<longrightarrow>
        e = None \<and>
        datetime_add now (timedelta_days (INTERVALS ! nat (level c'))) = Inr (next_review c'))"
proof -
  obtain c' e where r: "update_card_status c ok now = (c', e)"
    by (cases "update_card_status c ok now")
  show ?thesis
    using update_fst_fields [of c ok now] update_in_range [of c now ok]
    unfolding r by (simp add: min.commute max.commute)
qed

theorem update_card_status_spec_witness:
  "(let c = \<lparr>word = ''casa'', translation = ''house'', level = 0,
              next_review = \<lparr>year = 2024, month = 1, day = 30, hour = 10, minute = 30,
                             second = 5, microsecond = 123456\<rparr>,
              reviews = 0, correct = 0\<rparr>;
        now = \<lparr>year = 2024, month = 1, day = 30, hour = 10, minute = 30,
                second = 5, microsecond = 123456\<rparr>;
        r = update_card_status c True now
    in 0 \<le> level c \<and> level c \<le> int (length INTERVALS) - 1 \<and> valid_datetime now \<and>
       toordinal now + 90 \<le> MAXORDINAL \<and>
       snd r = None \<and> reviews (fst r) = 1 \<and> correct (fst r) = 1 \<and> level (fst r) = 1 \<and>
       next_review (fst r) = \<lparr>year = 2024, month = 2, day = 2, hour = 10, minute = 30,
                               second = 5, microsecond = 123456\<rparr>)"
proof -
  define now where "now = \<lparr>year = 2024, month = 1, day = 30, hour = 10, minute = 30,
                second = 5, microsecond = 123456\<rparr>"
  define c where "c = \<lparr>word = ''casa'', translation = ''house'', level = 0,
              next_review = now, reviews = 0, correct = 0\<rparr>"
  have o: "toordinal now = 738915"
    by (simp add: now_def toordinal_def ymd2ord_def days_before_year_def
        days_before_month_def DAYS_BEFORE_MONTH_def is_leap_def)
  have h: "0 \<le> level c \<and> level c \<le> int (length INTERVALS) - 1 \<and> valid_datetime now \<and>
       toordinal now + 90 \<le> MAXORDINAL"
    unfolding o by (simp add: c_def now_def INTERVALS_def valid_datetime_def days_in_month_def
        DAYS_IN_MONTH_def MAXORDINAL_def)
  have a: "datetime_add now (timedelta_days 3) =
      Inr \<lparr>year = 2024, month = 2, day = 2, hour = 10, minute = 30,
                               second = 5, microsecond = 123456\<rparr>"
    unfolding datetime_add_def o
    by (simp add: now_def timedelta_days_def MAXORDINAL_def ord2ymd_def Let_def
        DAYS_BEFORE_MONTH_def DAYS_IN_MONTH_def)
  have l: "INTERVALS ! nat 1 = 3" by (simp add: INTERVALS_def)
  have "snd (update_card_status c True now) = None \<and>
        reviews (fst (update_card_status c True now)) = 1 \<and>
        correct (fst (update_card_status c True now)) = 1 \<and>
        level (fst (update_card_status c True now)) = 1 \<and>
        next_review (fst (update_card_status c True now)) =
           \<lparr>year = 2024, month = 2, day = 2, hour = 10, minute = 30,
                               second = 5, microsecond = 123456\<rparr>"
    using update_card_status_spec [of c True now] h a l
    by (auto simp: case_prod_unfold c_def INTERVALS_def)
  with h show ?thesis
    by (simp add: Let_def c_def now_def)
qed

section \<open>The invariant over sequences of outcomes\<close>

lemma card_inv_Flashcard: "card_inv (Flashcard w t 0 nr now)"
  by (simp add: card_inv_def Flashcard_def INTERVALS_def)

lemma card_inv_update: "card_inv c \<Longrightarrow> card_inv (fst (update_card_status c ok now))"
  by (simp add: card_inv_def update_fst_fields INTERVALS_def)

lemma card_inv_update_all: "card_inv c \<Longrightarrow> card_inv (update_all c outcomes)"
proof (induction outcomes arbitrary: c)
  case Nil
  then show ?case by simp
next
  case (Cons o1 outcomes)
  obtain ok now where o1: "o1 = (ok, now)" by (cases o1)
  show ?case
    unfolding o1 update_all.simps
    by (rule Cons.IH) (rule card_inv_update [OF Cons.prems])
qed

text \<open>
  Claim C2. A card created with the defaults (level 0, no reviews, none correct) has, after
  any finite sequence of \<open>update_card_status\<close> calls with arbitrary outcomes and clock
  readings, a level between 0 and \<open>N - 1\<close> and at most as many correct reviews as
  reviews.
\<close>

theorem level_and_counters_invariant:
  "0 \<le> level (update_all (Flashcard w t 0 None now) outcomes) \<and>
   level (update_all (Flashcard w t 0 None now) outcomes) \<le> int (length INTERVALS) - 1 \<and>
   correct (update_all (Flashcard w t 0 None now) outcomes)
     \<le> reviews (update_all (Flashcard w t 0 None now) outcomes)"
  using card_inv_update_all [OF card_inv_Flashcard, of w t None now outcomes]
  by (simp add: card_inv_def)

theorem level_and_counters_invariant_witness:
  "(let now = \<lparr>year = 2024, month = 1, day = 30, hour = 10, minute = 30,
                second = 5, microsecond = 0\<rparr>;
        late = \<lparr>year = 9999, month = 12, day = 31, hour = 0, minute = 0,
                second = 0, microsecond = 0\<rparr>;
        c = update_all (Flashcard ''casa'' ''house'' 0 None now)
              [(True, now), (False, now), (False, late), (True, now)]
    in 0 \<le> level c \<and> level c \<le> 5 \<and> correct c \<le> reviews c)"
  using level_and_counters_invariant [of "''casa''" "''house''"
      "\<lparr>year = 2024, month = 1, day = 30, hour = 10, minute = 30, second = 5, microsecond = 0\<rparr>"
      "[(True, \<lparr>year = 2024, month = 1, day = 30, hour = 10, minute = 30, second = 5, microsecond = 0\<rparr>),
        (False, \<lparr>year = 2024, month = 1, day = 30, hour = 10, minute = 30, second = 5, microsecond = 0\<rparr>),
        (False, \<lparr>year = 9999, month = 12, day = 31, hour = 0, minute = 0, second = 0, microsecond = 0\<rparr>),
        (True, \<lparr>year = 2024, month = 1, day = 30, hour = 10, minute = 30, second = 5, microsecond = 0\<rparr>)]"]
  by (simp add: Let_def INTERVALS_def)

section \<open>Due cards\<close>

lemma due_cards_from_const:
  "due_cards_from (\<lambda>k. t) k cards = filter (\<lambda>c. datetime_le (next_review c) t) cards"
  by (induction cards arbitrary: k) simp_all

text \<open>
  When the clock moves during the selection, between \<open>t0\<close> and \<open>t1\<close>, every card due at
  \<open>t0\<close> is selected and every selected card is due at \<open>t1\<close>.
\<close>

lemma lex_le_trans: "lex_le xs ys \<Longrightarrow> lex_le ys zs \<Longrightarrow> lex_le xs zs"
proof (induction xs ys arbitrary: zs rule: lex_le.induct)
  case (1 ys)
  then show ?case by simp
next
  case (2 x xs)
  then show ?case by simp
next
  case (3 x xs y ys)
  then show ?case by (cases zs) auto
qed

lemma datetime_le_trans: "datetime_le a b \<Longrightarrow> datetime_le b c \<Longrightarrow> datetime_le a c"
  unfolding datetime_le_def by (rule lex_le_trans)

lemma due_cards_from_between:
  assumes "\<forall>k. datetime_le t0 (clock k) \<and> datetime_le (clock k) t1"
  shows "set (filter (\<lambda>c. datetime_le (next_review c) t0) cards)
           \<subseteq> set (due_cards_from clock k cards) \<and>
         set (due_cards_from clock k cards)
           \<subseteq> set (filter (\<lambda>c. datetime_le (next_review c) t1) cards)"
proof (induction cards arbitrary: k)
  case Nil
  then show ?case by simp
next
  case (Cons c cards)
  have a: "datetime_le (next_review c) t0 \<Longrightarrow> datetime_le (next_review c) (clock k)"
    using assms datetime_le_trans by blast
  have b: "datetime_le (next_review c) (clock k) \<Longrightarrow> datetime_le (next_review c) t1"
    using assms datetime_le_trans by blast
  from Cons [of "Suc k"] a b show ?case by auto
qed

text \<open>
  Claim C3. At a time \<open>t\<close> (every clock reading of the selection is \<open>t\<close>), the
  selection returns exactly the cards whose \<open>next_review\<close> is at most \<open>t\<close>: the
  result is the collection filtered by that test, so every returned card passes it and
  every card that passes it is returned.
\<close>

theorem due_cards_exact:
  "due_cards (\<lambda>k. t) cards = filter (\<lambda>c. datetime_le (next_review c) t) cards \<and>
   (\<forall>c. c \<in> set (due_cards (\<lambda>k. t) cards)
        \<longleftrightarrow> (c \<in> set cards \<and> datetime_le (next_review c) t))"
  by (simp add: due_cards_def due_cards_from_const)

theorem due_cards_exact_witness:
  "(let t = \<lparr>year = 2024, month = 2, day = 1, hour = 9, minute = 0, second = 0, microsecond = 0\<rparr>;
        a = \<lparr>word = ''casa'', translation = ''house'', level = 1,
             next_review = \<lparr>year = 2024, month = 1, day = 31, hour = 23, minute = 59,
                             second = 59, microsecond = 999999\<rparr>,
             reviews = 1, correct = 1\<rparr>;
        b = \<lparr>word = ''perro'', translation = ''dog'', level = 2,
             next_review = \<lparr>year = 2024, month = 2, day = 1, hour = 9, minute = 0,
                             second = 0, microsecond = 1\<rparr>,
             reviews = 2, correct = 2\<rparr>;
        d = \<lparr>word = ''gato'', translation = ''cat'', level = 0,
             next_review = t, reviews = 0, correct = 0\<rparr>
    in due_cards (\<lambda>k. t) [a, b, d] = [a, d])"
proof -
  define t where "t = \<lparr>year = 2024, month = 2, day = 1, hour = 9, minute = 0, second = 0, microsecond = 0\<rparr>"
  define a where "a = \<lparr>word = ''casa'', translation = ''house'', level = 1,
             next_review = \<lparr>year = 2024, month = 1, day = 31, hour = 23, minute = 59,
                             second = 59, microsecond = 999999\<rparr>,
             reviews = 1, correct = 1\<rparr>"
  define b where "b = \<lparr>word = ''perro'', translation = ''dog'', level = 2,
             next_review = \<lparr>year = 2024, month = 2, day = 1, hour = 9, minute = 0,
                             second = 0, microsecond = 1\<rparr>,
             reviews = 2, correct = 2\<rparr>"
  define d where "d = \<lparr>word = ''gato'', translation = ''cat'', level = 0,
             next_review = t, reviews = 0, correct = 0\<rparr>"
  have "datetime_le (next_review a) t" "\<not> datetime_le (next_review b) t"
    "datetime_le (next_review d) t"
    by (simp_all add: a_def b_def d_def t_def datetime_le_def datetime_key_def)
  with due_cards_exact [of t "[a, b, d]"] have "due_cards (\<lambda>k. t) [a, b, d] = [a, d]"
    by simp
  then show ?thesis by (simp add: Let_def a_def b_def d_def t_def)
qed

section \<open>The quiz generator: options and failure\<close>

lemma remove_nth_mset:
  assumes "j < length pool"
  shows "mset pool = add_mset (pool ! j) (mset (take j pool @ drop (Suc j) pool))"
proof -
  have "pool = take j pool @ pool ! j # drop (Suc j) pool"
    using assms by (simp add: id_take_nth_drop)
  then have "mset pool = mset (take j pool @ pool ! j # drop (Suc j) pool)" by simp
  then show ?thesis by simp
qed

lemma length_sample_draw: "k \<le> length pool \<Longrightarrow> length (sample_draw rs pool k) = k"
proof (induction k arbitrary: rs pool)
  case 0
  then show ?case by simp
next
  case (Suc k)
  then have ne: "pool \<noteq> []" by auto
  define j where "j = next_random rs mod length pool"
  have j: "j < length pool" using ne by (simp add: j_def)
  have "k \<le> length (take j pool @ drop (Suc j) pool)" using Suc.prems j by simp
  from Suc.IH [OF this] show ?case using ne by (simp add: Let_def j_def)
qed

lemma mset_sample_draw: "mset (sample_draw rs pool k) \<subseteq># mset pool"
proof (induction k arbitrary: rs pool)
  case 0
  then show ?case by simp
next
  case (Suc k)
  show ?case
  proof (cases "pool = []")
    case True
    then show ?thesis by simp
  next
    case False
    define j where "j = next_random rs mod length pool"
    have j: "j < length pool" using False by (simp add: j_def)
    have "mset (sample_draw (tl rs) (take j pool @ drop (Suc j) pool) k)
            \<subseteq># mset (take j pool @ drop (Suc j) pool)"
      by (rule Suc.IH)
    then have "add_mset (pool ! j) (mset (sample_draw (tl rs) (take j pool @ drop (Suc j) pool) k))
            \<subseteq># add_mset (pool ! j) (mset (take j pool @ drop (Suc j) pool))"
      by simp
    then show ?thesis
      using False remove_nth_mset [OF j] by (simp add: Let_def j_def)
  qed
qed

lemma mset_random_shuffle: "mset (random_shuffle rs xs) = mset xs"
proof -
  have "mset (sample_draw rs xs k) = mset xs" if "k = length xs" for k
    using that
  proof (induction k arbitrary: rs xs)
    case 0
    then show ?case by simp
  next
    case (Suc k)
    then have ne: "xs \<noteq> []" by auto
    define j where "j = next_random rs mod length xs"
    have j: "j < length xs" using ne by (simp add: j_def)
    have "k = length (take j xs @ drop (Suc j) xs)" using Suc.prems j by simp
    from Suc.IH [OF this] show ?case
      using ne remove_nth_mset [OF j] by (simp add: Let_def j_def)
  qed
  then show ?thesis by (simp add: random_shuffle_def)
qed

text \<open>
  Conversely every arrangement of elements of the population is the sample for some
  random source, and every permutation is a shuffle: the explicit source loses no outcome
  of the library functions.
\<close>

lemma sample_draw_complete:
  "mset r \<subseteq># mset pool \<Longrightarrow> \<exists>rs. sample_draw rs pool (length r) = r"
proof (induction r arbitrary: pool)
  case Nil
  then show ?case by simp
next
  case (Cons x r)
  from Cons.prems have "x \<in># mset pool" by (simp add: insert_subset_eq_iff)
  then have "x \<in> set pool" by simp
  then obtain j where j: "j < length pool" "pool ! j = x" by (auto simp: in_set_conv_nth)
  define pool' where "pool' = take j pool @ drop (Suc j) pool"
  have "mset pool = add_mset x (mset pool')"
    using remove_nth_mset [OF j(1)] j(2) by (simp add: pool'_def)
  with Cons.prems have "mset r \<subseteq># mset pool'" by simp
  from Cons.IH [OF this] obtain rs where rs: "sample_draw rs pool' (length r) = r" ..
  have ne: "pool \<noteq> []" using j(1) by auto
  have "sample_draw (j # rs) pool (length (x # r)) = x # r"
    using ne j rs by (simp add: Let_def pool'_def)
  then show ?case ..
qed

lemma random_shuffle_complete:
  assumes "mset r = mset xs"
  shows "\<exists>rs. random_shuffle rs xs = r"
proof -
  have "length r = length xs" using assms by (rule mset_eq_length)
  moreover have "mset r \<subseteq># mset xs" using assms by simp
  ultimately show ?thesis
    using sample_draw_complete [of r xs] by (simp add: random_shuffle_def)
qed

lemma create_quiz_found:
  assumes "find (\<lambda>c. word c = w) cards = Some cc"
  shows "\<exists>opts ds. create_quiz rs cards w = Inr (opts, translation cc) \<and>
           mset opts = add_mset (translation cc) (mset ds) \<and>
           length ds = min 3 (length (filter (\<lambda>c. word c \<noteq> w) cards)) \<and>
           mset ds \<subseteq># mset (map translation (filter (\<lambda>c. word c \<noteq> w) cards))"
proof -
  define pool where "pool = map translation (filter (\<lambda>c. word c \<noteq> w) cards)"
  define k where "k = min 3 (length (filter (\<lambda>c. word c \<noteq> w) cards))"
  define ds where "ds = sample_draw rs pool k"
  have kl: "k \<le> length pool" by (simp add: k_def pool_def)
  then have s: "random_sample rs pool k = Inr ds" by (simp add: random_sample_def ds_def)
  have q: "create_quiz rs cards w =
      Inr (random_shuffle (drop k rs) ([translation cc] @ ds), translation cc)"
    using assms s by (simp add: create_quiz_def Let_def pool_def [symmetric] k_def [symmetric])
  have "mset (random_shuffle (drop k rs) ([translation cc] @ ds)) = add_mset (translation cc) (mset ds)"
    by (simp add: mset_random_shuffle)
  moreover have "length ds = k" unfolding ds_def by (rule length_sample_draw [OF kl])
  moreover have "mset ds \<subseteq># mset pool" unfolding ds_def by (rule mset_sample_draw)
  ultimately show ?thesis using q unfolding k_def pool_def by blast
qed

text \<open>
  Claim C6. \<open>create_quiz\<close> fails exactly when no card of the collection has the target
  word, and the failure is then the one of the lookup (\<open>StopIteration\<close> from \<^verbatim>\<open>next\<close>, the
  program's form of the not-found error); when a card has the word it returns normally.
\<close>

theorem create_quiz_fails_iff:
  "(create_quiz rs cards w = Inl StopIteration) = (\<not> (\<exists>c \<in> set cards. word c = w)) \<and>
   (\<exists>r. create_quiz rs cards w = Inr r) = (\<exists>c \<in> set cards. word c = w) \<and>
   (\<forall>e. create_quiz rs cards w = Inl e \<longrightarrow> e = StopIteration)"
proof (cases "find (\<lambda>c. word c = w) cards")
  case None
  then have "\<not> (\<exists>c \<in> set cards. word c = w)" by (simp add: find_None_iff)
  moreover have "create_quiz rs cards w = Inl StopIteration"
    using None by (simp add: create_quiz_def)
  ultimately show ?thesis by simp
next
  case (Some cc)
  then have "\<exists>c \<in> set cards. word c = w" by (auto simp: find_Some_iff)
  moreover from create_quiz_found [OF Some, of rs]
  obtain opts where "create_quiz rs cards w = Inr (opts, translation cc)" by blast
  ultimately show ?thesis by simp
qed


lemma find_word_Some:
  assumes "length (filter (\<lambda>c. word c = w) cards) = 1"
  shows "\<exists>cc. find (\<lambda>c. word c = w) cards = Some cc \<and> cc \<in> set cards \<and> word cc = w"
proof (cases "find (\<lambda>c. word c = w) cards")
  case None
  then have "filter (\<lambda>c. word c = w) cards = []"
    by (simp add: find_None_iff filter_empty_conv)
  with assms show ?thesis by simp
next
  case (Some cc)
  then show ?thesis by (auto simp: find_Some_iff)
qed

lemma others_count:
  assumes "length (filter (\<lambda>c. word c = w) cards) = 1"
  shows "length (filter (\<lambda>c. word c \<noteq> w) cards) = length cards - 1"
  using sum_length_filter_compl [of "\<lambda>c. word c = w" cards] assms by simp

lemma distractor_pool_misses_answer:
  assumes "distinct (map translation cards)" "cc \<in> set cards" "word cc = w"
  shows "translation cc \<notin> set (map translation (filter (\<lambda>c. word c \<noteq> w) cards))"
proof
  assume "translation cc \<in> set (map translation (filter (\<lambda>c. word c \<noteq> w) cards))"
  then obtain c where c: "c \<in> set cards" "word c \<noteq> w" "translation c = translation cc"
    by auto
  from assms(1) have "inj_on translation (set cards)" by (simp add: distinct_map)
  with c(1,3) assms(2) have "c = cc" by (auto dest: inj_onD)
  with c(2) assms(3) show False by simp
qed

text \<open>
  Claim C5. When exactly one card has the target word, \<open>create_quiz\<close> returns that card's
  translation as the answer and a list of options of length \<open>1 + min 3 n\<close>, where \<open>n\<close>
  is the number of other cards (one less than the size of the collection). When all
  translations of the collection are distinct the answer occurs exactly once among the
  options, and for a collection of a single card the options are the answer alone.
\<close>

theorem create_quiz_options:
  assumes "length (filter (\<lambda>c. word c = w) cards) = 1"
  shows "\<exists>cc opts. cc \<in> set cards \<and> word cc = w \<and>
     create_quiz rs cards w = Inr (opts, translation cc) \<and>
     length opts = 1 + min 3 (length (filter (\<lambda>c. word c \<noteq> w) cards)) \<and>
     length (filter (\<lambda>c. word c \<noteq> w) cards) = length cards - 1 \<and>
     (distinct (map translation cards) \<longrightarrow> count_list opts (translation cc) = 1) \<and>
     (length cards = 1 \<longrightarrow> opts = [translation cc])"
proof -
  from find_word_Some [OF assms] obtain cc where
    cc: "find (\<lambda>c. word c = w) cards = Some cc" "cc \<in> set cards" "word cc = w" by blast
  from create_quiz_found [OF cc(1), of rs] obtain opts ds where
    q: "create_quiz rs cards w = Inr (opts, translation cc)"
    and m: "mset opts = add_mset (translation cc) (mset ds)"
    and l: "length ds = min 3 (length (filter (\<lambda>c. word c \<noteq> w) cards))"
    and sub: "mset ds \<subseteq># mset (map translation (filter (\<lambda>c. word c \<noteq> w) cards))"
    by blast
  have "size (mset opts) = Suc (size (mset ds))" unfolding m by simp
  then have len: "length opts = 1 + min 3 (length (filter (\<lambda>c. word c \<noteq> w) cards))"
    using l by simp
  have once: "count_list opts (translation cc) = 1" if d: "distinct (map translation cards)"
  proof -
    have "translation cc \<notin> set (map translation (filter (\<lambda>c. word c \<noteq> w) cards))"
      by (rule distractor_pool_misses_answer [OF d cc(2,3)])
    then have "count (mset (map translation (filter (\<lambda>c. word c \<noteq> w) cards))) (translation cc) = 0"
      by (simp add: count_eq_zero_iff)
    with mset_subset_eq_count [OF sub, of "translation cc"]
    have "count (mset ds) (translation cc) = 0" by simp
    then have "count (mset opts) (translation cc) = 1" unfolding m by simp
    then show ?thesis by (simp add: count_mset)
  qed
  have single: "opts = [translation cc]" if "length cards = 1"
  proof -
    have "length ds = 0" using l others_count [OF assms] that by simp
    then have "mset opts = {#translation cc#}" unfolding m by simp
    then show ?thesis by simp
  qed
  show ?thesis
    using cc(2,3) q len others_count [OF assms] once single by blast
qed


theorem create_quiz_options_witness:
  "(let t = \<lparr>year = 2024, month = 2, day = 1, hour = 9, minute = 0, second = 0, microsecond = 0\<rparr>;
        cards = [\<lparr>word = ''casa'', translation = ''house'', level = 0, next_review = t,
                  reviews = 0, correct = 0\<rparr>,
                 \<lparr>word = ''perro'', translation = ''dog'', level = 0, next_review = t,
                  reviews = 0, correct = 0\<rparr>,
                 \<lparr>word = ''gato'', translation = ''cat'', level = 0, next_review = t,
                  reviews = 0, correct = 0\<rparr>,
                 \<lparr>word = ''libro'', translation = ''book'', level = 0, next_review = t,
                  reviews = 0, correct = 0\<rparr>,
                 \<lparr>word = ''mesa'', translation = ''table'', level = 0, next_review = t,
                  reviews = 0, correct = 0\<rparr>]
    in length (filter (\<lambda>c. word c = ''perro'') cards) = 1 \<and>
       distinct (map translation cards) \<and>
       (\<exists>opts. create_quiz [5, 1, 7, 2, 0, 3, 1] cards ''perro'' = Inr (opts, ''dog'') \<and>
               length opts = 4 \<and> count_list opts ''dog'' = 1))"
proof -
  define t where "t = \<lparr>year = 2024, month = 2, day = 1, hour = 9, minute = 0, second = 0, microsecond = 0\<rparr>"
  define cards where "cards = [\<lparr>word = ''casa'', translation = ''house'', level = 0, next_review = t,
                  reviews = 0, correct = 0\<rparr>,
                 \<lparr>word = ''perro'', translation = ''dog'', level = 0, next_review = t,
                  reviews = 0, correct = 0\<rparr>,
                 \<lparr>word = ''gato'', translation = ''cat'', level = 0, next_review = t,
                  reviews = 0, correct = 0\<rparr>,
                 \<lparr>word = ''libro'', translation = ''book'', level = 0, next_review = t,
                  reviews = 0, correct = 0\<rparr>,
                 \<lparr>word = ''mesa'', translation = ''table'', level = 0, next_review = t,
                  reviews = 0, correct = 0\<rparr>]"
  have h: "length (filter (\<lambda>c. word c = ''perro'') cards) = 1"
    by (simp add: cards_def)
  have d: "distinct (map translation cards)" by (simp add: cards_def)
  have o: "length (filter (\<lambda>c. word c \<noteq> ''perro'') cards) = 4" by (simp add: cards_def)
  have w: "translation cc = ''dog''" if "cc \<in> set cards" "word cc = ''perro''" for cc
    using that by (auto simp: cards_def)
  from create_quiz_options [OF h, of "[5, 1, 7, 2, 0, 3, 1]"] obtain cc opts where
    "cc \<in> set cards" "word cc = ''perro''"
    "create_quiz [5, 1, 7, 2, 0, 3, 1] cards ''perro'' = Inr (opts, translation cc)"
    "length opts = 1 + min 3 (length (filter (\<lambda>c. word c \<noteq> ''perro'') cards))"
    "distinct (map translation cards) \<longrightarrow> count_list opts (translation cc) = 1"
    by blast
  with d o w have "\<exists>opts. create_quiz [5, 1, 7, 2, 0, 3, 1] cards ''perro'' = Inr (opts, ''dog'') \<and>
               length opts = 4 \<and> count_list opts ''dog'' = 1"
    by auto
  with h d show ?thesis unfolding Let_def cards_def t_def by simp
qed

theorem create_quiz_fails_iff_witness:
  "(let t = \<lparr>year = 2024, month = 2, day = 1, hour = 9, minute = 0, second = 0, microsecond = 0\<rparr>;
        cards = [\<lparr>word = ''casa'', translation = ''house'', level = 0, next_review = t,
                  reviews = 0, correct = 0\<rparr>,
                 \<lparr>word = ''perro'', translation = ''dog'', level = 0, next_review = t,
                  reviews = 0, correct = 0\<rparr>]
    in create_quiz [2, 0] cards ''gato'' = Inl StopIteration \<and>
       (\<exists>r. create_quiz [2, 0] cards ''perro'' = Inr r))"
proof -
  define t where "t = \<lparr>year = 2024, month = 2, day = 1, hour = 9, minute = 0, second = 0, microsecond = 0\<rparr>"
  define cards where "cards = [\<lparr>word = ''casa'', translation = ''house'', level = 0, next_review = t,
                  reviews = 0, correct = 0\<rparr>,
                 \<lparr>word = ''perro'', translation = ''dog'', level = 0, next_review = t,
                  reviews = 0, correct = 0\<rparr>]"
  have a: "\<not> (\<exists>c \<in> set cards. word c = ''gato'')" by (simp add: cards_def)
  have b: "\<exists>c \<in> set cards. word c = ''perro''" by (simp add: cards_def)
  have "create_quiz [2, 0] cards ''gato'' = Inl StopIteration"
    using create_quiz_fails_iff [of "[2, 0]" cards "''gato''"] a by simp
  moreover have "\<exists>r. create_quiz [2, 0] cards ''perro'' = Inr r"
    using create_quiz_fails_iff [of "[2, 0]" cards "''perro''"] b by simp
  ultimately show ?thesis unfolding Let_def cards_def t_def by simp
qed

section \<open>Saving and loading\<close>

lemma digit_roundtrip: "d < 10 \<Longrightarrow> is_digit (digit_char d) \<and> digit_value (digit_char d) = d"
  by (simp add: is_digit_def digit_value_def digit_char_def)

lemma parse_zero_padded:
  "m < 10 ^ w \<Longrightarrow>
   parse_digits (w + v) acc (zero_padded w m @ rest) = parse_digits v (acc * 10 ^ w + m) rest"
proof (induction w arbitrary: m v rest)
  case 0
  then show ?case by simp
next
  case (Suc w)
  have d: "m div 10 < 10 ^ w" using Suc.prems by (simp add: less_mult_imp_div_less mult.commute)
  have "parse_digits (Suc w + v) acc (zero_padded (Suc w) m @ rest)
      = parse_digits (w + Suc v) acc (zero_padded w (m div 10) @ digit_char (m mod 10) # rest)"
    by simp
  also have "\<dots> = parse_digits (Suc v) (acc * 10 ^ w + m div 10) (digit_char (m mod 10) # rest)"
    by (rule Suc.IH [OF d])
  also have "\<dots> = parse_digits v ((acc * 10 ^ w + m div 10) * 10 + m mod 10) rest"
    using digit_roundtrip [of "m mod 10"] by simp
  also have "(acc * 10 ^ w + m div 10) * 10 + m mod 10 = acc * 10 ^ Suc w + m"
    by (simp add: algebra_simps)
  finally show ?case .
qed

lemma parse_field:
  "m < 10 ^ w \<Longrightarrow> parse_digits w 0 (zero_padded w m @ rest) = Some (m, rest)"
  using parse_zero_padded [of m w 0 0 rest] by simp



lemma parse_field_end:
  "m < 10 ^ w \<Longrightarrow> parse_digits w 0 (zero_padded w m) = Some (m, [])"
  using parse_field [of m w "[]"] by simp

lemma days_in_month_le: "1 \<le> m \<Longrightarrow> m \<le> 12 \<Longrightarrow> days_in_month y m \<le> 31"
  using month_cases [of m] by (auto simp: days_in_month_def DAYS_IN_MONTH_def)

lemma parse_isoformat_isoformat:
  assumes "valid_datetime t"
  shows "parse_isoformat (isoformat t) = Some t"
proof -
  define y mo d h mi sec us where f: "y = nat (year t)" "mo = nat (month t)" "d = nat (day t)"
    "h = nat (hour t)" "mi = nat (minute t)" "sec = nat (second t)" "us = nat (microsecond t)"
  have dm: "day t \<le> 31"
    using assms days_in_month_le [of "month t" "year t"] by (simp add: valid_datetime_def)
  have b: "y < 10 ^ 4" "mo < 10 ^ 2" "d < 10 ^ 2" "h < 10 ^ 2" "mi < 10 ^ 2" "sec < 10 ^ 2"
    "us < 10 ^ 6"
    using assms dm by (auto simp: valid_datetime_def f)
  have t_fields: "t = \<lparr>year = int y, month = int mo, day = int d, hour = int h,
                     minute = int mi, second = int sec, microsecond = int us\<rparr>"
    using assms by (auto simp: valid_datetime_def f)
  have z: "(microsecond t = 0) = (us = 0)" using assms by (auto simp: valid_datetime_def f)
  have iso: "isoformat t =
     zero_padded 4 y @ CHR ''-'' # zero_padded 2 mo @ CHR ''-'' # zero_padded 2 d @
     CHR ''T'' # zero_padded 2 h @ CHR '':'' # zero_padded 2 mi @ CHR '':'' #
     zero_padded 2 sec @ (if us = 0 then [] else CHR ''.'' # zero_padded 6 us)"
    unfolding isoformat_def f [symmetric] z by simp
  have tail: "parse_digits 2 0 (zero_padded 2 sec @ (if us = 0 then [] else CHR ''.'' # zero_padded 6 us))
      = Some (sec, if us = 0 then [] else CHR ''.'' # zero_padded 6 us)"
    by (rule parse_field [OF b(6)])
  have frac: "(if (if us = 0 then [] else CHR ''.'' # zero_padded 6 us) = [] then Some (0, [])
               else expect CHR ''.'' (if us = 0 then [] else CHR ''.'' # zero_padded 6 us)
                    \<bind> parse_digits 6 0) = Some (us, [])"
    using parse_field_end [OF b(7)] by simp
  have "parse_isoformat (isoformat t) =
      Some \<lparr>year = int y, month = int mo, day = int d, hour = int h,
                     minute = int mi, second = int sec, microsecond = int us\<rparr>"
    unfolding parse_isoformat_def iso
    by (simp add: parse_field [OF b(1)] parse_field [OF b(2)] parse_field [OF b(3)]
        parse_field [OF b(4)] parse_field [OF b(5)] tail frac parse_field_end [OF b(7)]
        del: zero_padded.simps)
  then show ?thesis using t_fields by simp
qed

lemma fromisoformat_isoformat:
  "valid_datetime t \<Longrightarrow> fromisoformat (isoformat t) = Inr t"
  by (simp add: fromisoformat_def parse_isoformat_isoformat)

lemma from_dict_to_dict:
  assumes "valid_datetime (next_review c)"
  shows "from_dict (to_dict c) = Inr c"
  using fromisoformat_isoformat [OF assms]
  by (simp add: from_dict_def to_dict_def subscript_def dict_get_def get_counter_def
      Flashcard_def)

lemma from_dict_all_to_dict:
  "\<forall>c \<in> set cards. valid_datetime (next_review c) \<Longrightarrow>
   from_dict_all (map to_dict cards) = Inr cards"
  by (induction cards) (simp_all add: from_dict_to_dict)

text \<open>
  Claim C4. For every list of cards (whose timestamps are datetime objects) saved to a
  writable store, loading the saved snapshot gives back an equal list: the same cards in
  the same order, each with the same word, translation, level, next review time down to
  the microsecond, reviews and correct count.
\<close>

theorem load_save_roundtrip:
  assumes "writable st" "\<forall>c \<in> set cards. valid_datetime (next_review c)"
  shows "\<exists>st'. save_cards cards st = Inr st' \<and> load_cards st' = Inr cards"
  using assms from_dict_all_to_dict [OF assms(2)]
  by (simp add: save_cards_def load_cards_def iterate_def)


subsection \<open>Records with missing counters\<close>

lemma from_dict_fields:
  assumes "dict_get kvs ''word'' = Some (JStr w)"
    and "dict_get kvs ''translation'' = Some (JStr t)"
    and "dict_get kvs ''level'' = Some (JInt l)"
    and "dict_get kvs ''next_review'' = Some (JStr s)"
    and "fromisoformat s = Inr d"
    and "dict_get kvs ''reviews'' = map_option JInt r"
    and "dict_get kvs ''correct'' = map_option JInt k"
  shows "from_dict (JObj kvs) =
     Inr \<lparr>word = w, translation = t, level = l, next_review = d,
          reviews = (case r of None \<Rightarrow> 0 | Some n \<Rightarrow> n),
          correct = (case k of None \<Rightarrow> 0 | Some n \<Rightarrow> n)\<rparr>"
  using assms
  by (cases r; cases k)
     (simp_all add: from_dict_def subscript_def get_counter_def Flashcard_def)

text \<open>
  Claim C10. A record with the members \<open>word\<close>, \<open>translation\<close>, \<open>level\<close> and a
  \<open>next_review\<close> timestamp is deserialised successfully whether or not it has the members
  \<open>reviews\<close> and \<open>correct\<close>: a missing counter becomes 0, a present one is taken over,
  and the other fields are those of the record.
\<close>

theorem from_dict_defaults:
  assumes "dict_get kvs ''word'' = Some (JStr w)"
    and "dict_get kvs ''translation'' = Some (JStr t)"
    and "dict_get kvs ''level'' = Some (JInt l)"
    and "dict_get kvs ''next_review'' = Some (JStr s)"
    and "fromisoformat s = Inr d"
    and "dict_get kvs ''reviews'' = map_option JInt r"
    and "dict_get kvs ''correct'' = map_option JInt k"
  shows "from_dict (JObj kvs) =
     Inr \<lparr>word = w, translation = t, level = l, next_review = d,
          reviews = (case r of None \<Rightarrow> 0 | Some n \<Rightarrow> n),
          correct = (case k of None \<Rightarrow> 0 | Some n \<Rightarrow> n)\<rparr>"
  by (rule from_dict_fields [OF assms])

section \<open>Adding a card\<close>

text \<open>
  Claim C7, as amended. Adding a card with an empty word or an empty translation does
  nothing: the handler returns normally, reports nothing, and leaves the collection and
  the stored snapshot as they were. (The claim as stated, that it fails with a validation
  error, is refuted among the concrete runs at the end.)
\<close>

theorem add_card_empty_input:
  assumes "w = [] \<or> t = []"
  shows "add_card w t now cards st = ((cards, st), Inr None)"
  using assms by (auto simp: add_card_def)

section \<open>Statistics\<close>

lemma accuracy_branch:
  "0 \<le> reviews c \<Longrightarrow>
   (if 0 < reviews c then real_of_int (correct c) / real_of_int (reviews c) else 0)
     = card_accuracy c"
  by (simp add: card_accuracy_def)

lemma avg_accuracy_as_mean:
  assumes "\<forall>c \<in> set cards. 0 \<le> reviews c"
  shows "avg_accuracy cards = (\<Sum>c\<leftarrow>cards. card_accuracy c) / real (length cards) * 100"
proof -
  have eq: "map (\<lambda>c. if 0 < reviews c then real_of_int (correct c) / real_of_int (reviews c)
                        else 0) cards = map card_accuracy cards"
    using assms by (intro map_cong refl accuracy_branch) simp
  show ?thesis unfolding avg_accuracy_def np_mean_def eq by simp
qed

text \<open>
  Claim C9. For a non-empty collection of cards with non-negative review counts, the
  average accuracy of the statistics is the mean over all cards of the per-card accuracy
  (correct over reviews, and 0 for a card with no reviews) times 100. For two cards, one
  with 4 reviews of which 2 correct and one with no reviews, it is 25.
\<close>

theorem avg_accuracy_mean:
  "(cards \<noteq> [] \<and> (\<forall>c \<in> set cards. 0 \<le> reviews c) \<longrightarrow>
      study_statistics cards =
        Some (length cards, sum_list (map reviews cards),
              (\<Sum>c\<leftarrow>cards. card_accuracy c) / real (length cards) * 100)) \<and>
   (reviews a = 4 \<and> correct a = 2 \<and> reviews b = 0 \<longrightarrow>
      study_statistics [a, b] = Some (2, 4, 25))"
proof -
  have "study_statistics [a, b] = Some (2, 4, 25)"
    if "reviews a = 4" "correct a = 2" "reviews b = 0"
    using that by (simp add: study_statistics_def avg_accuracy_def np_mean_def)
  then show ?thesis
    using avg_accuracy_as_mean [of cards] by (auto simp: study_statistics_def)
qed

section \<open>Failures of loading\<close>

lemma is_strE: "is_str x \<Longrightarrow> \<exists>s. x = Some (JStr s)"
  by (cases x rule: is_str.cases) simp_all

lemma is_intE: "is_int x \<Longrightarrow> \<exists>n. x = map_option JInt (Some n)"
  by (cases x rule: is_int.cases) simp_all

lemma is_timestampE: "is_timestamp x \<Longrightarrow> \<exists>s d. x = Some (JStr s) \<and> fromisoformat s = Inr d"
  by (cases x rule: is_timestamp.cases) (simp_all split: sum.splits)

lemma counter_okE:
  assumes "counter_ok x"
  shows "\<exists>r. x = map_option JInt r"
proof (cases x)
  case None
  then have "x = map_option JInt None" by simp
  then show ?thesis ..
next
  case (Some v)
  show ?thesis
  proof (cases v)
    case (JInt n)
    with Some have "x = map_option JInt (Some n)" by simp
    then show ?thesis ..
  qed (insert assms Some, simp_all)
qed

lemma counter_value_default: "counter_value (map_option JInt r) = (case r of None \<Rightarrow> 0 | Some n \<Rightarrow> n)"
  by (cases r) simp_all

text \<open>A record that lacks at most its counters is deserialised, an absent counter as 0.\<close>

lemma from_dict_loadable:
  assumes "record_loadable x"
  shows "\<exists>c. from_dict x = Inr c \<and> loaded_as x c"
proof -
  from assms obtain kvs where x: "x = JObj kvs"
    by (cases x) (simp_all add: record_loadable_def)
  from assms have wf: "is_str (dict_get kvs ''word'')" "is_str (dict_get kvs ''translation'')"
    "is_int (dict_get kvs ''level'')" "is_timestamp (dict_get kvs ''next_review'')"
    "counter_ok (dict_get kvs ''reviews'')" "counter_ok (dict_get kvs ''correct'')"
    unfolding x record_loadable_def by simp_all
  from is_strE [OF wf(1)] obtain w where w: "dict_get kvs ''word'' = Some (JStr w)" ..
  from is_strE [OF wf(2)] obtain t where t: "dict_get kvs ''translation'' = Some (JStr t)" ..
  from is_intE [OF wf(3)] obtain l where l: "dict_get kvs ''level'' = Some (JInt l)" by auto
  from is_timestampE [OF wf(4)] obtain s d where
    s: "dict_get kvs ''next_review'' = Some (JStr s)" and d: "fromisoformat s = Inr d" by blast
  from counter_okE [OF wf(5)] obtain n where n: "dict_get kvs ''reviews'' = map_option JInt n" ..
  from counter_okE [OF wf(6)] obtain k where k: "dict_get kvs ''correct'' = map_option JInt k" ..
  define c where "c = \<lparr>word = w, translation = t, level = l, next_review = d,
          reviews = (case n of None \<Rightarrow> 0 | Some i \<Rightarrow> i),
          correct = (case k of None \<Rightarrow> 0 | Some i \<Rightarrow> i)\<rparr>"
  have "from_dict x = Inr c"
    unfolding x c_def by (rule from_dict_fields [OF w t l s d n k])
  moreover have "loaded_as x c"
    unfolding x loaded_as_def
    by (simp add: c_def w t l s d n k counter_value_default)
  ultimately show ?thesis by blast
qed

lemma from_dict_all_loadable:
  "list_all record_loadable items \<Longrightarrow>
   \<exists>cards. from_dict_all items = Inr cards \<and> list_all2 loaded_as items cards"
proof (induction items)
  case Nil
  then show ?case by simp
next
  case (Cons r items)
  then obtain c where c: "from_dict r = Inr c" "loaded_as r c"
    using from_dict_loadable [of r] by auto
  from Cons obtain cards where cards: "from_dict_all items = Inr cards"
    "list_all2 loaded_as items cards" by auto
  have "from_dict_all (r # items) = Inr (c # cards)" using c(1) cards(1) by simp
  moreover have "list_all2 loaded_as (r # items) (c # cards)" using c(2) cards(2) by simp
  ultimately show ?case by blast
qed

lemma from_dict_all_first_failure:
  assumes "list_all record_loadable pre" "from_dict x = Inl e"
  shows "from_dict_all (pre @ x # post) = Inl e"
  using assms(1)
proof (induction pre)
  case Nil
  then show ?case by (simp add: assms(2))
next
  case (Cons p pre)
  then obtain c where "from_dict p = Inr c" using from_dict_loadable [of p] by auto
  with Cons show ?case by simp
qed

lemma from_dict_not_object:
  assumes "\<forall>kvs. x \<noteq> JObj kvs"
  shows "from_dict x = Inl TypeError"
  using assms by (cases x) (simp_all add: from_dict_def subscript_def)

lemma from_dict_missing_key:
  assumes "k \<in> set [''word'', ''translation'', ''level'', ''next_review'']"
    and "dict_get kvs k = None"
  shows "from_dict (JObj kvs) = Inl KeyError"
proof -
  have s: "subscript (JObj kvs) k = Inl KeyError"
    using assms(2) by (simp add: subscript_def)
  have other: "subscript (JObj kvs) k' = Inl KeyError \<or> (\<exists>v. subscript (JObj kvs) k' = Inr v)"
    for k'
    by (simp add: subscript_def split: option.splits)
  from assms(1) consider "k = ''word''" | "k = ''translation''" | "k = ''level''"
    | "k = ''next_review''" by auto
  then show ?thesis
  proof cases
    case 1
    with s show ?thesis by (simp add: from_dict_def)
  next
    case 2
    with s other [of "''word''"] show ?thesis by (auto simp: from_dict_def)
  next
    case 3
    with s other [of "''word''"] other [of "''translation''"] show ?thesis
      by (auto simp: from_dict_def)
  next
    case 4
    with s other [of "''word''"] other [of "''translation''"] other [of "''level''"]
    show ?thesis by (auto simp: from_dict_def)
  qed
qed

lemma from_dict_bad_timestamp:
  assumes "dict_get kvs ''word'' = Some w" "dict_get kvs ''translation'' = Some t"
    "dict_get kvs ''level'' = Some l" "dict_get kvs ''next_review'' = Some (JStr s)"
    "fromisoformat s = Inl ValueError"
  shows "from_dict (JObj kvs) = Inl ValueError"
  using assms by (simp add: from_dict_def subscript_def)

text \<open>
  Claim C8, as amended. \<open>load_cards\<close> returns the empty list when there is no snapshot
  file. Every other failure to read the snapshot is raised, uncaught, as the Python
  exception it is: \<open>OSError\<close> when the file cannot be opened or read,
  \<open>UnicodeDecodeError\<close> when its bytes are not text in the file's encoding,
  \<open>JSONDecodeError\<close> when the text is not a JSON document, \<open>TypeError\<close> when the JSON
  value is null, a boolean or a number, and, for a list whose records before some record
  lack at most their counters, \<open>TypeError\<close> when that record is not an object,
  \<open>KeyError\<close> when it lacks \<open>word\<close>, \<open>translation\<close>, \<open>level\<close> or \<open>next_review\<close>, and
  \<open>ValueError\<close> when its timestamp has a field out of range. A snapshot whose records
  lack at most \<open>reviews\<close> or \<open>correct\<close> is not an error: it is loaded, record by record
  and in order, with 0 for every absent counter.
\<close>

theorem load_cards_failures:
  "(content st = Missing \<longrightarrow> load_cards st = Inr []) \<and>
   (content st = Unreadable \<longrightarrow> load_cards st = Inl OSError) \<and>
   (content st = Undecodable \<longrightarrow> load_cards st = Inl UnicodeDecodeError) \<and>
   (content st = Garbage \<longrightarrow> load_cards st = Inl JSONDecodeError) \<and>
   (content st = Holds JNull \<or> content st = Holds (JBool b) \<or> content st = Holds (JInt n)
      \<longrightarrow> load_cards st = Inl TypeError) \<and>
   (content st = Holds (JArr (pre @ x # post)) \<and> list_all record_loadable pre \<longrightarrow>
      ((\<forall>kvs. x \<noteq> JObj kvs) \<longrightarrow> load_cards st = Inl TypeError) \<and>
      (\<forall>kvs k. x = JObj kvs \<and>
           k \<in> set [''word'', ''translation'', ''level'', ''next_review''] \<and>
           dict_get kvs k = None \<longrightarrow> load_cards st = Inl KeyError) \<and>
      (\<forall>kvs w t l s. x = JObj kvs \<and> dict_get kvs ''word'' = Some w \<and>
           dict_get kvs ''translation'' = Some t \<and> dict_get kvs ''level'' = Some l \<and>
           dict_get kvs ''next_review'' = Some (JStr s) \<and> fromisoformat s = Inl ValueError
           \<longrightarrow> load_cards st = Inl ValueError)) \<and>
   (content st = Holds (JArr items) \<and> list_all record_loadable items \<longrightarrow>
      (\<exists>cards. load_cards st = Inr cards \<and> list_all2 loaded_as items cards) \<and>
      (\<forall>i kvs. i < length items \<and> items ! i = JObj kvs \<longrightarrow>
         (\<exists>cards. load_cards st = Inr cards \<and> length cards = length items \<and>
            (dict_get kvs ''reviews'' = None \<longrightarrow> reviews (cards ! i) = 0) \<and>
            (dict_get kvs ''correct'' = None \<longrightarrow> correct (cards ! i) = 0))))"
proof -
  have arr: "load_cards st = Inl e"
    if "content st = Holds (JArr (pre @ x # post))" "list_all record_loadable pre"
      "from_dict x = Inl e" for e
    using that(1) from_dict_all_first_failure [OF that(2,3), of post]
    by (simp add: load_cards_def iterate_def)
  have basic: "(content st = Missing \<longrightarrow> load_cards st = Inr []) \<and>
   (content st = Unreadable \<longrightarrow> load_cards st = Inl OSError) \<and>
   (content st = Undecodable \<longrightarrow> load_cards st = Inl UnicodeDecodeError) \<and>
   (content st = Garbage \<longrightarrow> load_cards st = Inl JSONDecodeError) \<and>
   (content st = Holds JNull \<or> content st = Holds (JBool b) \<or> content st = Holds (JInt n)
      \<longrightarrow> load_cards st = Inl TypeError)"
    by (auto simp: load_cards_def iterate_def)
  have fails: "content st = Holds (JArr (pre @ x # post)) \<and> list_all record_loadable pre \<longrightarrow>
      ((\<forall>kvs. x \<noteq> JObj kvs) \<longrightarrow> load_cards st = Inl TypeError) \<and>
      (\<forall>kvs k. x = JObj kvs \<and>
           k \<in> set [''word'', ''translation'', ''level'', ''next_review''] \<and>
           dict_get kvs k = None \<longrightarrow> load_cards st = Inl KeyError) \<and>
      (\<forall>kvs w t l s. x = JObj kvs \<and> dict_get kvs ''word'' = Some w \<and>
           dict_get kvs ''translation'' = Some t \<and> dict_get kvs ''level'' = Some l \<and>
           dict_get kvs ''next_review'' = Some (JStr s) \<and> fromisoformat s = Inl ValueError
           \<longrightarrow> load_cards st = Inl ValueError)"
    using arr from_dict_not_object [of x] from_dict_missing_key from_dict_bad_timestamp
    by blast
  have loads: "(\<exists>cards. load_cards st = Inr cards \<and> list_all2 loaded_as items cards) \<and>
      (\<forall>i kvs. i < length items \<and> items ! i = JObj kvs \<longrightarrow>
         (\<exists>cards. load_cards st = Inr cards \<and> length cards = length items \<and>
            (dict_get kvs ''reviews'' = None \<longrightarrow> reviews (cards ! i) = 0) \<and>
            (dict_get kvs ''correct'' = None \<longrightarrow> correct (cards ! i) = 0)))"
    if h: "content st = Holds (JArr items)" "list_all record_loadable items"
  proof -
    from from_dict_all_loadable [OF h(2)] obtain cards where
      c: "from_dict_all items = Inr cards" "list_all2 loaded_as items cards" by blast
    have l: "load_cards st = Inr cards" using h(1) c(1) by (simp add: load_cards_def iterate_def)
    have len: "length cards = length items" using c(2) by (simp add: list_all2_lengthD)
    have "(dict_get kvs ''reviews'' = None \<longrightarrow> reviews (cards ! i) = 0) \<and>
          (dict_get kvs ''correct'' = None \<longrightarrow> correct (cards ! i) = 0)"
      if i: "i < length items" "items ! i = JObj kvs" for i kvs
    proof -
      from c(2) i(1) have "loaded_as (items ! i) (cards ! i)" by (rule list_all2_nthD)
      then show ?thesis unfolding i(2) loaded_as_def by simp
    qed
    with l len c(2) show ?thesis by blast
  qed
  from basic fails loads show ?thesis by blast
qed

section \<open>Concrete runs\<close>

theorem load_save_roundtrip_witness:
  "(let t1 = \<lparr>year = 2024, month = 2, day = 29, hour = 9, minute = 0, second = 7,
               microsecond = 1200\<rparr>;
        t2 = \<lparr>year = 2024, month = 12, day = 31, hour = 23, minute = 59, second = 59,
               microsecond = 0\<rparr>;
        cards = [\<lparr>word = ''casa'', translation = ''house'', level = 1, next_review = t1,
                  reviews = 3, correct = 2\<rparr>,
                 \<lparr>word = ''perro'', translation = ''dog'', level = 0, next_review = t2,
                  reviews = 0, correct = 0\<rparr>];
        st = \<lparr>content = Missing, writable = True\<rparr>
    in writable st \<and> valid_datetime t1 \<and> valid_datetime t2 \<and>
       (\<exists>st'. save_cards cards st = Inr st' \<and> load_cards st' = Inr cards))"
proof -
  define t1 where "t1 = \<lparr>year = 2024, month = 2, day = 29, hour = 9, minute = 0, second = 7,
               microsecond = 1200\<rparr>"
  define t2 where "t2 = \<lparr>year = 2024, month = 12, day = 31, hour = 23, minute = 59, second = 59,
               microsecond = 0\<rparr>"
  define cards where "cards = [\<lparr>word = ''casa'', translation = ''house'', level = 1, next_review = t1,
                  reviews = 3, correct = 2\<rparr>,
                 \<lparr>word = ''perro'', translation = ''dog'', level = 0, next_review = t2,
                  reviews = 0, correct = 0\<rparr>]"
  define st where "st = \<lparr>content = Missing, writable = True\<rparr>"
  have v: "valid_datetime t1" "valid_datetime t2"
    by (simp_all add: t1_def t2_def valid_datetime_def days_in_month_def DAYS_IN_MONTH_def
        is_leap_def)
  have w: "writable st" by (simp add: st_def)
  have a: "\<forall>c \<in> set cards. valid_datetime (next_review c)" using v by (simp add: cards_def)
  from load_save_roundtrip [OF w a] v w show ?thesis
    unfolding Let_def cards_def st_def t1_def t2_def by simp
qed

lemma fromisoformat_example:
  "fromisoformat ''2024-12-01T08:15:00'' =
     Inr \<lparr>year = 2024, month = 12, day = 1, hour = 8, minute = 15, second = 0, microsecond = 0\<rparr>"
  by code_simp

lemma fromisoformat_month_13: "fromisoformat ''2024-13-01T08:15:00'' = Inl ValueError"
  by code_simp

theorem from_dict_defaults_witness:
  "from_dict (JObj [(''word'', JStr ''casa''), (''translation'', JStr ''house''),
                    (''level'', JInt 2), (''next_review'', JStr ''2024-12-01T08:15:00''),
                    (''correct'', JInt 1)]) =
     Inr \<lparr>word = ''casa'', translation = ''house'', level = 2,
          next_review = \<lparr>year = 2024, month = 12, day = 1, hour = 8, minute = 15, second = 0,
                          microsecond = 0\<rparr>,
          reviews = 0, correct = 1\<rparr>"
  using from_dict_defaults [of
      "[(''word'', JStr ''casa''), (''translation'', JStr ''house''),
        (''level'', JInt 2), (''next_review'', JStr ''2024-12-01T08:15:00''),
        (''correct'', JInt 1)]"
      "''casa''" "''house''" 2 "''2024-12-01T08:15:00''"
      "\<lparr>year = 2024, month = 12, day = 1, hour = 8, minute = 15, second = 0, microsecond = 0\<rparr>"
      None "Some 1"] fromisoformat_example
  by (simp add: dict_get_def)

theorem add_card_no_validation_error:
  "\<not> (\<exists>e. snd (add_card [] ''house''
        \<lparr>year = 2024, month = 12, day = 1, hour = 8, minute = 15, second = 0, microsecond = 0\<rparr>
        [] \<lparr>content = Missing, writable = True\<rparr>) = Inl e)"
  by (simp add: add_card_def)

theorem add_card_empty_input_witness:
  "(let c = \<lparr>word = ''casa'', translation = ''house'', level = 2,
          next_review = \<lparr>year = 2024, month = 12, day = 1, hour = 8, minute = 15, second = 0,
                          microsecond = 0\<rparr>,
          reviews = 0, correct = 1\<rparr>;
        st = \<lparr>content = Holds (JArr [to_dict c]), writable = True\<rparr>
    in add_card ''gato'' [] (next_review c) [c] st = (([c], st), Inr None))"
  using add_card_empty_input [of "''gato''" "[]"] by (simp add: Let_def)

theorem avg_accuracy_mean_witness:
  "(let t = \<lparr>year = 2024, month = 12, day = 1, hour = 8, minute = 15, second = 0,
              microsecond = 0\<rparr>;
        a = \<lparr>word = ''casa'', translation = ''house'', level = 2, next_review = t,
             reviews = 4, correct = 2\<rparr>;
        b = \<lparr>word = ''perro'', translation = ''dog'', level = 0, next_review = t,
             reviews = 0, correct = 0\<rparr>
    in study_statistics [a, b] = Some (2, 4, 25) \<and>
       (card_accuracy a + card_accuracy b) / 2 * 100 = 25)"
proof -
  define t where "t = \<lparr>year = 2024, month = 12, day = 1, hour = 8, minute = 15, second = 0,
              microsecond = 0\<rparr>"
  define a where "a = \<lparr>word = ''casa'', translation = ''house'', level = 2, next_review = t,
             reviews = 4, correct = 2\<rparr>"
  define b where "b = \<lparr>word = ''perro'', translation = ''dog'', level = 0, next_review = t,
             reviews = 0, correct = 0\<rparr>"
  have h: "reviews a = 4 \<and> correct a = 2 \<and> reviews b = 0" by (simp add: a_def b_def)
  have n: "[a, b] \<noteq> [] \<and> (\<forall>c \<in> set [a, b]. 0 \<le> reviews c)" by (simp add: a_def b_def)
  from avg_accuracy_mean [of "[a, b]" a b] h n
  have "study_statistics [a, b] = Some (2, 4, 25)"
    "study_statistics [a, b] = Some (length [a, b], sum_list (map reviews [a, b]),
              (\<Sum>c\<leftarrow>[a, b]. card_accuracy c) / real (length [a, b]) * 100)"
    by blast+
  then have "study_statistics [a, b] = Some (2, 4, 25) \<and>
       (card_accuracy a + card_accuracy b) / 2 * 100 = 25"
    by simp
  then show ?thesis unfolding Let_def a_def b_def t_def by simp
qed

theorem load_cards_malformed_accepted:
  "\<not> snapshot_well_formed
       (JArr [JObj [(''word'', JStr ''casa''), (''translation'', JStr ''house''),
                    (''level'', JInt 2), (''next_review'', JStr ''2024-12-01T08:15:00'')]]) \<and>
   load_cards \<lparr>content = Holds
       (JArr [JObj [(''word'', JStr ''casa''), (''translation'', JStr ''house''),
                    (''level'', JInt 2), (''next_review'', JStr ''2024-12-01T08:15:00'')]]),
       writable = True\<rparr> =
     Inr [\<lparr>word = ''casa'', translation = ''house'', level = 2,
          next_review = \<lparr>year = 2024, month = 12, day = 1, hour = 8, minute = 15, second = 0,
                          microsecond = 0\<rparr>,
          reviews = 0, correct = 0\<rparr>]"
proof -
  have "from_dict (JObj [(''word'', JStr ''casa''), (''translation'', JStr ''house''),
                    (''level'', JInt 2), (''next_review'', JStr ''2024-12-01T08:15:00'')]) =
     Inr \<lparr>word = ''casa'', translation = ''house'', level = 2,
          next_review = \<lparr>year = 2024, month = 12, day = 1, hour = 8, minute = 15, second = 0,
                          microsecond = 0\<rparr>,
          reviews = 0, correct = 0\<rparr>"
    using fromisoformat_example
    by (simp add: from_dict_def subscript_def dict_get_def get_counter_def Flashcard_def)
  then show ?thesis
    by (simp add: load_cards_def iterate_def snapshot_well_formed_def record_well_formed_def
        dict_get_def)
qed

theorem load_cards_failures_witness:
  "load_cards \<lparr>content = Missing, writable = True\<rparr> = Inr [] \<and>
   load_cards \<lparr>content = Unreadable, writable = False\<rparr> = Inl OSError \<and>
   load_cards \<lparr>content = Undecodable, writable = True\<rparr> = Inl UnicodeDecodeError \<and>
   load_cards \<lparr>content = Garbage, writable = True\<rparr> = Inl JSONDecodeError \<and>
   load_cards \<lparr>content = Holds (JInt 3), writable = True\<rparr> = Inl TypeError \<and>
   load_cards \<lparr>content = Holds (JArr [JStr ''casa'']), writable = True\<rparr> = Inl TypeError \<and>
   load_cards \<lparr>content = Holds (JArr [JObj [(''word'', JStr ''casa''),
       (''level'', JInt 2), (''next_review'', JStr ''2024-12-01T08:15:00'')]]),
       writable = True\<rparr> = Inl KeyError \<and>
   load_cards \<lparr>content = Holds (JArr [JObj [(''word'', JStr ''casa''),
       (''translation'', JStr ''house''), (''level'', JInt 2),
       (''next_review'', JStr ''2024-13-01T08:15:00'')]]), writable = True\<rparr> = Inl ValueError \<and>
   (\<exists>c d. load_cards \<lparr>content = Holds (JArr
        [JObj [(''word'', JStr ''perro''), (''translation'', JStr ''dog''), (''level'', JInt 1),
               (''next_review'', JStr ''2024-12-01T08:15:00''), (''reviews'', JInt 5),
               (''correct'', JInt 4)],
         JObj [(''word'', JStr ''casa''), (''translation'', JStr ''house''), (''level'', JInt 2),
               (''next_review'', JStr ''2024-12-01T08:15:00''), (''correct'', JInt 1)]]),
        writable = True\<rparr> = Inr [c, d] \<and>
      word c = ''perro'' \<and> reviews c = 5 \<and> correct c = 4 \<and>
      word d = ''casa'' \<and> reviews d = 0 \<and> correct d = 1)"
proof -
  define kv1 where "kv1 = [(''word'', JStr ''casa''),
       (''level'', JInt 2), (''next_review'', JStr ''2024-12-01T08:15:00'')]"
  define kv2 where "kv2 = [(''word'', JStr ''casa''),
       (''translation'', JStr ''house''), (''level'', JInt 2),
       (''next_review'', JStr ''2024-13-01T08:15:00'')]"
  define kv3 where "kv3 = [(''word'', JStr ''perro''), (''translation'', JStr ''dog''),
       (''level'', JInt 1), (''next_review'', JStr ''2024-12-01T08:15:00''),
       (''reviews'', JInt 5), (''correct'', JInt 4)]"
  define kv4 where "kv4 = [(''word'', JStr ''casa''), (''translation'', JStr ''house''),
       (''level'', JInt 2), (''next_review'', JStr ''2024-12-01T08:15:00''),
       (''correct'', JInt 1)]"
  have 1: "load_cards \<lparr>content = Missing, writable = True\<rparr> = Inr []"
    using load_cards_failures [of "\<lparr>content = Missing, writable = True\<rparr>"] by simp
  have 2: "load_cards \<lparr>content = Unreadable, writable = False\<rparr> = Inl OSError"
    using load_cards_failures [of "\<lparr>content = Unreadable, writable = False\<rparr>"] by simp
  have 3: "load_cards \<lparr>content = Garbage, writable = True\<rparr> = Inl JSONDecodeError"
    using load_cards_failures [of "\<lparr>content = Garbage, writable = True\<rparr>"] by simp
  have dec: "load_cards \<lparr>content = Undecodable, writable = True\<rparr> = Inl UnicodeDecodeError"
    using load_cards_failures [of "\<lparr>content = Undecodable, writable = True\<rparr>"] by simp
  have 4: "load_cards \<lparr>content = Holds (JInt 3), writable = True\<rparr> = Inl TypeError"
    using load_cards_failures [of "\<lparr>content = Holds (JInt 3), writable = True\<rparr>" _ 3] by simp
  have 5: "load_cards \<lparr>content = Holds (JArr [JStr ''casa'']), writable = True\<rparr> = Inl TypeError"
    using load_cards_failures [of "\<lparr>content = Holds (JArr [JStr ''casa'']), writable = True\<rparr>"
        _ _ "[]" "JStr ''casa''" "[]"] by simp
  have 6: "load_cards \<lparr>content = Holds (JArr [JObj kv1]), writable = True\<rparr> = Inl KeyError"
  proof -
    have "dict_get kv1 ''translation'' = None" by (simp add: kv1_def dict_get_def)
    then show ?thesis
      using load_cards_failures [of "\<lparr>content = Holds (JArr [JObj kv1]), writable = True\<rparr>"
        _ _ "[]" "JObj kv1" "[]"] by auto
  qed
  have 7: "load_cards \<lparr>content = Holds (JArr [JObj kv2]), writable = True\<rparr> = Inl ValueError"
  proof -
    have "dict_get kv2 ''word'' = Some (JStr ''casa'')"
      "dict_get kv2 ''translation'' = Some (JStr ''house'')"
      "dict_get kv2 ''level'' = Some (JInt 2)"
      "dict_get kv2 ''next_review'' = Some (JStr ''2024-13-01T08:15:00'')"
      by (simp_all add: kv2_def dict_get_def)
    then show ?thesis
      using load_cards_failures [of "\<lparr>content = Holds (JArr [JObj kv2]), writable = True\<rparr>"
        _ _ "[]" "JObj kv2" "[]"] fromisoformat_month_13 by auto
  qed
  have 8: "\<exists>c d. load_cards \<lparr>content = Holds (JArr [JObj kv3, JObj kv4]), writable = True\<rparr>
        = Inr [c, d] \<and>
      word c = ''perro'' \<and> reviews c = 5 \<and> correct c = 4 \<and>
      word d = ''casa'' \<and> reviews d = 0 \<and> correct d = 1"
  proof -
    have g3: "dict_get kv3 ''word'' = Some (JStr ''perro'')"
      "dict_get kv3 ''translation'' = Some (JStr ''dog'')"
      "dict_get kv3 ''level'' = Some (JInt 1)"
      "dict_get kv3 ''next_review'' = Some (JStr ''2024-12-01T08:15:00'')"
      "dict_get kv3 ''reviews'' = Some (JInt 5)"
      "dict_get kv3 ''correct'' = Some (JInt 4)"
      by (simp_all add: kv3_def dict_get_def)
    have g4: "dict_get kv4 ''word'' = Some (JStr ''casa'')"
      "dict_get kv4 ''translation'' = Some (JStr ''house'')"
      "dict_get kv4 ''level'' = Some (JInt 2)"
      "dict_get kv4 ''next_review'' = Some (JStr ''2024-12-01T08:15:00'')"
      "dict_get kv4 ''reviews'' = None"
      "dict_get kv4 ''correct'' = Some (JInt 1)"
      by (simp_all add: kv4_def dict_get_def)
    have ok: "list_all record_loadable [JObj kv3, JObj kv4]"
      using fromisoformat_example by (simp add: record_loadable_def g3 g4)
    have "content \<lparr>content = Holds (JArr [JObj kv3, JObj kv4]), writable = True\<rparr>
              = Holds (JArr [JObj kv3, JObj kv4]) \<and>
          list_all record_loadable [JObj kv3, JObj kv4]"
      using ok by simp
    with load_cards_failures [THEN conjunct2, THEN conjunct2, THEN conjunct2, THEN conjunct2,
        THEN conjunct2, THEN conjunct2, THEN mp, THEN conjunct1,
        of "\<lparr>content = Holds (JArr [JObj kv3, JObj kv4]), writable = True\<rparr>"
           "[JObj kv3, JObj kv4]"]
    obtain cards where c: "load_cards \<lparr>content = Holds (JArr [JObj kv3, JObj kv4]),
        writable = True\<rparr> = Inr cards" "list_all2 loaded_as [JObj kv3, JObj kv4] cards"
      by blast
    from c(2) obtain x y where xy: "cards = [x, y]" "loaded_as (JObj kv3) x"
      "loaded_as (JObj kv4) y"
      by (auto simp: list_all2_Cons1)
    from xy(2) have "word x = ''perro'' \<and> reviews x = 5 \<and> correct x = 4"
      by (simp add: loaded_as_def g3)
    moreover from xy(3) have "word y = ''casa'' \<and> reviews y = 0 \<and> correct y = 1"
      by (simp add: loaded_as_def g4)
    ultimately show ?thesis using c(1) xy(1) by blast
  qed
  show ?thesis using 1 2 3 dec 4 5 6 7 8 unfolding kv1_def kv2_def kv3_def kv4_def by simp
qed

end
